theory Spec2Isabelle
  imports Complex_Main
begin

section \<open>JavaScript numbers and values\<close>

text \<open>
  The minimap computes with JavaScript numbers. They are modelled as real numbers
  extended by the three non-finite values of the language. The operators below are exact:
  they do not round their result to a double, and the sign of zero is not modelled (a zero
  is the positive zero); everything else follows the arithmetic of the language: a
  division by zero gives an infinity or \<open>NaN\<close>, \<open>NaN\<close> propagates through every operator
  and makes every comparison false. The rounding is defined after the operators, and is
  applied where a property depends on it.
\<close>

datatype jsnum = Fin real | PInf | NInf | NaN

definition signed_inf :: "bool \<Rightarrow> jsnum" where
  "signed_inf neg = (if neg then NInf else PInf)"

fun negative :: "jsnum \<Rightarrow> bool" where
  "negative (Fin a) = (a < 0)"
| "negative NInf = True"
| "negative PInf = False"
| "negative NaN = False"

fun js_neg :: "jsnum \<Rightarrow> jsnum" where
  "js_neg (Fin a) = Fin (- a)"
| "js_neg PInf = NInf"
| "js_neg NInf = PInf"
| "js_neg NaN = NaN"

fun js_add :: "jsnum \<Rightarrow> jsnum \<Rightarrow> jsnum" where
  "js_add (Fin a) (Fin b) = Fin (a + b)"
| "js_add NaN b = NaN"
| "js_add a NaN = NaN"
| "js_add PInf NInf = NaN"
| "js_add NInf PInf = NaN"
| "js_add PInf b = PInf"
| "js_add a PInf = PInf"
| "js_add NInf b = NInf"
| "js_add a NInf = NInf"

definition js_sub :: "jsnum \<Rightarrow> jsnum \<Rightarrow> jsnum" where
  "js_sub a b = js_add a (js_neg b)"

fun js_mul :: "jsnum \<Rightarrow> jsnum \<Rightarrow> jsnum" where
  "js_mul (Fin a) (Fin b) = Fin (a * b)"
| "js_mul NaN b = NaN"
| "js_mul a NaN = NaN"
| "js_mul a b = (if a = Fin 0 \<or> b = Fin 0 then NaN else signed_inf (negative a \<noteq> negative b))"

fun js_div :: "jsnum \<Rightarrow> jsnum \<Rightarrow> jsnum" where
  "js_div (Fin a) (Fin b) =
     (if b = 0 then (if a = 0 then NaN else signed_inf (a < 0)) else Fin (a / b))"
| "js_div NaN b = NaN"
| "js_div a NaN = NaN"
| "js_div (Fin a) b = Fin 0"
| "js_div a (Fin b) = signed_inf (negative a \<noteq> (b < 0))"
| "js_div a b = NaN"

fun js_lt :: "jsnum \<Rightarrow> jsnum \<Rightarrow> bool" where
  "js_lt (Fin a) (Fin b) = (a < b)"
| "js_lt NaN b = False"
| "js_lt a NaN = False"
| "js_lt NInf b = (b \<noteq> NInf)"
| "js_lt a PInf = (a \<noteq> PInf)"
| "js_lt a b = False"

definition js_gt :: "jsnum \<Rightarrow> jsnum \<Rightarrow> bool" where
  "js_gt a b = js_lt b a"

definition Math_max :: "jsnum \<Rightarrow> jsnum \<Rightarrow> jsnum" where
  "Math_max a b = (if a = NaN \<or> b = NaN then NaN else if js_lt a b then b else a)"

definition Math_min :: "jsnum \<Rightarrow> jsnum \<Rightarrow> jsnum" where
  "Math_min a b = (if a = NaN \<or> b = NaN then NaN else if js_lt b a then b else a)"

text \<open>
  A value is a number or a string. \<open>ToNumber\<close> is the conversion that the operators
  \<open>-\<close>, \<open>/\<close> and \<open><\<close> (with a number on one side) apply to their operands. Of the
  grammar of numeric strings the model covers the empty string and the unsigned decimal
  integers; every other string converts to \<open>NaN\<close>, as any string with a letter that no
  numeric literal contains does in the language.
\<close>

datatype jsval = JNum jsnum | JStr string

definition is_digit :: "char \<Rightarrow> bool" where
  "is_digit c = (c \<in> set ''0123456789'')"

definition digit_value :: "char \<Rightarrow> nat" where
  "digit_value c = of_char c - 48"

definition decimal :: "string \<Rightarrow> nat" where
  "decimal s = foldl (\<lambda>n c. 10 * n + digit_value c) 0 s"

definition StringToNumber :: "string \<Rightarrow> jsnum" where
  "StringToNumber s =
     (if s = [] then Fin 0
      else if list_all is_digit s then Fin (real (decimal s))
      else NaN)"

fun ToNumber :: "jsval \<Rightarrow> jsnum" where
  "ToNumber (JNum n) = n"
| "ToNumber (JStr s) = StringToNumber s"

subsection \<open>Rounding to doubles\<close>

text \<open>
  A finite double is an integer of magnitude below \<open>2^53\<close> times a power of two from
  \<open>2^-1074\<close> to \<open>2^971\<close>. An operator of the language gives the double nearest to the
  exact result, the one with the even integer when two doubles are equally near, and an
  infinity when that rounding reaches \<open>2^1024\<close>.

  \<open>round_even\<close> rounds a real number to the nearest integer, a half to the even
  neighbour. With all numbers scaled by \<open>2^1074\<close> the doubles are integers, and
  \<open>2^1024\<close> becomes \<open>2^2098\<close>. \<open>find_exp\<close> finds the least \<open>k\<close> from 0 to 2045
  that has the scaled magnitude below \<open>2^(53 + k)\<close>, and \<open>2^k\<close> is then the distance
  between the scaled doubles around the number; there is no such \<open>k\<close> from \<open>2^1024\<close>
  on. \<open>to_double\<close> rounds the result of an exact operator, and a real number is a
  double when rounding leaves it as it is.
\<close>

definition scale :: real where
  "scale = 2 ^ 1074"

definition overflow :: real where
  "overflow = 2 ^ 2098"

definition round_even :: "real \<Rightarrow> int" where
  "round_even x =
     (let f = \<lfloor>x\<rfloor>; d = x - of_int f in
      if d < 1 / 2 then f
      else if 1 / 2 < d then f + 1
      else if even f then f else f + 1)"

fun find_exp :: "nat \<Rightarrow> nat \<Rightarrow> real \<Rightarrow> nat option" where
  "find_exp 0 k y = None"
| "find_exp (Suc n) k y = (if y < 2 ^ (53 + k) then Some k else find_exp n (Suc k) y)"

definition round_double :: "real \<Rightarrow> jsnum" where
  "round_double x =
     (case find_exp 2046 0 (\<bar>x\<bar> * scale) of
        None \<Rightarrow> signed_inf (x < 0)
      | Some k \<Rightarrow>
          (let m = round_even (x * scale / 2 ^ k) in
           if overflow \<le> \<bar>of_int m\<bar> * 2 ^ k then signed_inf (x < 0)
           else Fin (of_int m * 2 ^ k / scale)))"

fun to_double :: "jsnum \<Rightarrow> jsnum" where
  "to_double (Fin x) = round_double x"
| "to_double PInf = PInf"
| "to_double NInf = NInf"
| "to_double NaN = NaN"

definition is_double :: "real \<Rightarrow> bool" where
  "is_double x = (round_double x = Fin x)"

section \<open>Geometry\<close>

record bounds =
  b_x :: jsnum
  b_y :: jsnum
  b_width :: jsnum
  b_height :: jsnum

record point =
  p_x :: jsnum
  p_y :: jsnum

text \<open>
  \<open>fitAspectRatio\<close> writes into the object it is given (\<open>assign(bounds, ...)\<close>) and
  returns that same object. Objects live in a store, a reference is an address in it.
\<close>

type_synonym ref = nat

type_synonym store = "ref \<Rightarrow> bounds"

definition fitAspectRatio :: "ref \<Rightarrow> jsnum \<Rightarrow> store \<Rightarrow> ref \<times> store" where
  "fitAspectRatio bounds targetAspectRatio h =
     (let aspectRatio = js_div (b_width (h bounds)) (b_height (h bounds)) in
      if js_gt aspectRatio targetAspectRatio then
        (let height = js_mul (b_width (h bounds)) (js_div (Fin 1) targetAspectRatio);
             y = js_sub (b_y (h bounds)) (js_div (js_sub height (b_height (h bounds))) (Fin 2))
         in (bounds, h(bounds := (h bounds)\<lparr>b_y := y, b_height := height\<rparr>)))
      else if js_lt aspectRatio targetAspectRatio then
        (let width = js_mul (b_height (h bounds)) targetAspectRatio;
             x = js_sub (b_x (h bounds)) (js_div (js_sub width (b_width (h bounds))) (Fin 2))
         in (bounds, h(bounds := (h bounds)\<lparr>b_x := x, b_width := width\<rparr>)))
      else (bounds, h))"

text \<open>
  The source calls this function \<open>map\<close>. \<open>map_num\<close> is the function in exact
  arithmetic, \<open>map_double\<close> is the function as the machine computes it, every operator
  rounding its result to a double.
\<close>

definition map_num :: "jsnum \<Rightarrow> jsnum \<Rightarrow> jsnum \<Rightarrow> jsnum \<Rightarrow> jsnum \<Rightarrow> jsnum" where
  "map_num x inMin inMax outMin outMax =
     (let inRange = js_sub inMax inMin;
          outRange = js_sub outMax outMin
      in js_add (js_div (js_mul (js_sub x inMin) outRange) inRange) outMin)"

text \<open>
  The literal \<open>0.1\<close> is the first of these doubles; three times it rounds to the
  second, and a third of that rounds to the last, which is the double after \<open>0.1\<close>.
\<close>

definition tenth :: real where
  "tenth = 3602879701896397 / 2 ^ 55"

definition three_tenths :: real where
  "three_tenths = 5404319552844596 / 2 ^ 54"

definition above_tenth :: real where
  "above_tenth = 7205759403792795 / 2 ^ 56"

text \<open>The largest finite double.\<close>

definition max_double :: real where
  "max_double = (2 ^ 53 - 1) * 2 ^ 971"

definition map_double :: "jsnum \<Rightarrow> jsnum \<Rightarrow> jsnum \<Rightarrow> jsnum \<Rightarrow> jsnum \<Rightarrow> jsnum" where
  "map_double x inMin inMax outMin outMax =
     (let inRange = to_double (js_sub inMax inMin);
          outRange = to_double (js_sub outMax outMin)
      in to_double (js_add
           (to_double (js_div (to_double (js_mul (to_double (js_sub x inMin)) outRange)) inRange))
           outMin))"

text \<open>No operator of the function rounds: every exact intermediate result is a double.\<close>

definition exact_steps :: "real \<Rightarrow> real \<Rightarrow> real \<Rightarrow> real \<Rightarrow> real \<Rightarrow> bool" where
  "exact_steps x inMin inMax outMin outMax =
     (is_double (inMax - inMin)
      \<and> is_double (outMax - outMin)
      \<and> is_double (x - inMin)
      \<and> is_double ((x - inMin) * (outMax - outMin))
      \<and> is_double ((x - inMin) * (outMax - outMin) / (inMax - inMin))
      \<and> is_double ((x - inMin) * (outMax - outMin) / (inMax - inMin) + outMin))"

section \<open>The diagram: canvas and element registry\<close>

text \<open>
  The canvas belongs to the diagram, not to the minimap: its state is a type parameter and
  its methods are taken as a record of functions. \<open>getBBox\<close> is
  \<open>canvas.getDefaultLayer().getBBox()\<close>; \<open>viewbox_get\<close>, \<open>viewbox_set\<close> are
  \<open>canvas.viewbox()\<close> with no and with one argument, \<open>zoom_get\<close>, \<open>zoom_set\<close> are
  \<open>canvas.zoom()\<close> likewise.

  A setter may announce the new viewbox before it returns. The handler of that
  notification only runs the update of the minimap, which writes two attributes from the
  state of the canvas alone, and every handler that calls a setter runs the update again
  after its last call: the nested runs leave no trace and are left out.
\<close>

record 'c canvas_api =
  getBBox :: "'c \<Rightarrow> bounds"
  viewbox_get :: "'c \<Rightarrow> bounds"
  viewbox_set :: "bounds \<Rightarrow> 'c \<Rightarrow> 'c"
  zoom_get :: "'c \<Rightarrow> jsnum"
  zoom_set :: "jsnum \<Rightarrow> 'c \<Rightarrow> 'c"

text \<open>What the minimap asks of the canvas, in the order of the calls.\<close>

datatype request = SetViewbox bounds | SetZoom jsnum

text \<open>
  A diagram element, with the fields that the minimap reads: a connection is an element
  with waypoints.
\<close>

record element =
  el_id :: string
  el_x :: jsnum
  el_y :: jsnum
  waypoints :: "point list option"

text \<open>
  A node of an SVG tree is an element, with its \<open>id\<close> and \<open>class\<close> attributes (each a
  string or absent), its \<open>transform\<close> attribute (kept as the two numbers of
  \<open>translate(x y)\<close>, or absent), its tag name and its child nodes; or it is a node that is
  not an element (a text, a comment), which has no attributes and no method
  \<open>getAttribute\<close>. The graphics of a diagram element are the child nodes of its group.
\<close>

datatype svgnode =
    Elem "string option" "string option" "(jsnum \<times> jsnum) option" string "svgnode list"
  | TextNode string

type_synonym gfx = "svgnode list"

section \<open>The minimap\<close>

record dimensions =
  d_width :: jsval
  d_height :: jsval

definition MINIMAP_DIMENSIONS :: dimensions where
  "MINIMAP_DIMENSIONS = \<lparr>d_width = JStr ''320px'', d_height = JStr ''180px''\<rparr>"

definition MIN_VIEWBOX_DIMENSIONS :: dimensions where
  "MIN_VIEWBOX_DIMENSIONS =
     \<lparr>d_width = d_width MINIMAP_DIMENSIONS, d_height = d_height MINIMAP_DIMENSIONS\<rparr>"

definition CROSSHAIR_CURSOR :: string where
  "CROSSHAIR_CURSOR = ''crosshair''"

definition DEFAULT_CURSOR :: string where
  "DEFAULT_CURSOR = ''inherit''"

definition MOVE_CURSOR :: string where
  "MOVE_CURSOR = ''move''"

definition ZOOM_SMOOTHING :: jsnum where
  "ZOOM_SMOOTHING = Fin 300"

definition MIN_ZOOM :: jsnum where
  "MIN_ZOOM = Fin 4"

text \<open>The literal \<open>0.2\<close>, as the exact fraction.\<close>

definition MAX_ZOOM :: jsnum where
  "MAX_ZOOM = Fin (2 / 10)"

record dragstate =
  isDragging :: bool
  initialDragPosition :: "point option"
  cachedViewbox :: "bounds option"

text \<open>
  The fields of the minimap object, and the objects it holds a reference to.
  \<open>svg_viewBox\<close> is the \<open>viewBox\<close> attribute of the root node, kept as the four values
  that the source joins with commas; \<open>svg_width\<close> and \<open>svg_height\<close> are the size of its
  bounding client rectangle; \<open>this_viewport\<close> holds the four geometry attributes of the
  indicator rectangle; \<open>this_elementsGroup\<close> holds the child nodes of the elements
  group, which are the only nodes below the root node that can carry an \<open>id\<close>;
  \<open>parent_cursor\<close> is the cursor style of the container.
  \<open>requests\<close> records the setter calls made on the canvas.
\<close>

record 'c minimap =
  this_canvas :: 'c
  requests :: "request list"
  this_elementRegistry :: "string \<rightharpoonup> gfx"
  this_state :: dragstate
  svg_viewBox :: "jsval list option"
  svg_width :: jsnum
  svg_height :: jsnum
  this_viewport :: "bounds option"
  this_elementsGroup :: "svgnode list"
  parent_cursor :: string

record dom_event =
  clientX :: jsnum
  clientY :: jsnum
  offsetX :: jsnum
  offsetY :: jsnum
  deltaY :: jsnum
  propagationStopped :: bool
  defaultPrevented :: bool

datatype error = TypeError

definition stopPropagation :: "dom_event \<Rightarrow> dom_event" where
  "stopPropagation event = event\<lparr>propagationStopped := True\<rparr>"

definition canvas_viewbox :: "'c canvas_api \<Rightarrow> bounds \<Rightarrow> 'c minimap \<Rightarrow> 'c minimap" where
  "canvas_viewbox api box m =
     m\<lparr>this_canvas := viewbox_set api box (this_canvas m),
       requests := requests m @ [SetViewbox box]\<rparr>"

definition canvas_zoom :: "'c canvas_api \<Rightarrow> jsnum \<Rightarrow> 'c minimap \<Rightarrow> 'c minimap" where
  "canvas_zoom api z m =
     m\<lparr>this_canvas := zoom_set api z (this_canvas m),
       requests := requests m @ [SetZoom z]\<rparr>"

text \<open>
  The method \<open>_update\<close>. The comparisons and the subtractions convert the minimum
  dimensions to numbers; the attribute gets the values as they are.
\<close>

definition update :: "'c canvas_api \<Rightarrow> 'c minimap \<Rightarrow> 'c minimap" where
  "update api m =
     (let bBox = getBBox api (this_canvas m);
          viewbox = viewbox_get api (this_canvas m);
          m1 =
            (if js_lt (b_width bBox) (ToNumber (d_width MIN_VIEWBOX_DIMENSIONS))
                \<and> js_lt (b_height bBox) (ToNumber (d_height MIN_VIEWBOX_DIMENSIONS))
             then
               (let x = js_sub (b_x bBox)
                          (js_div (js_sub (ToNumber (d_width MIN_VIEWBOX_DIMENSIONS)) (b_width bBox))
                             (Fin 2));
                    y = js_sub (b_y bBox)
                          (js_div (js_sub (ToNumber (d_height MIN_VIEWBOX_DIMENSIONS)) (b_height bBox))
                             (Fin 2));
                    width = (if js_lt (b_width bBox) (ToNumber (d_width MIN_VIEWBOX_DIMENSIONS))
                             then d_width MIN_VIEWBOX_DIMENSIONS else JNum (b_width bBox));
                    height = (if js_lt (b_height bBox) (ToNumber (d_height MIN_VIEWBOX_DIMENSIONS))
                              then d_height MIN_VIEWBOX_DIMENSIONS else JNum (b_height bBox))
                in m\<lparr>svg_viewBox := Some [JNum x, JNum y, width, height]\<rparr>)
             else
               m\<lparr>svg_viewBox :=
                   Some [JNum (b_x bBox), JNum (b_y bBox), JNum (b_width bBox), JNum (b_height bBox)]\<rparr>)
      in m1\<lparr>this_viewport :=
               Some \<lparr>b_x = b_x viewbox, b_y = b_y viewbox,
                     b_width = b_width viewbox, b_height = b_height viewbox\<rparr>\<rparr>)"

definition isConnection :: "element \<Rightarrow> bool" where
  "isConnection element = (waypoints element \<noteq> None)"

text \<open>
  \<open>getDjsVisual\<close> filters the child nodes by their class attribute and takes the first
  that is left, or \<open>undefined\<close>. The filter calls \<open>getAttribute\<close> on every child node,
  which throws on a node that is not an element.
\<close>

fun filter_djs_visual :: "svgnode list \<Rightarrow> error + svgnode list" where
  "filter_djs_visual [] = Inr []"
| "filter_djs_visual (TextNode s # childNodes) = Inl TypeError"
| "filter_djs_visual (Elem i c t tg ch # childNodes) =
     (case filter_djs_visual childNodes of
        Inl e \<Rightarrow> Inl e
      | Inr vs \<Rightarrow> Inr (if c = Some ''djs-visual'' then Elem i c t tg ch # vs else vs))"

definition getDjsVisual :: "gfx \<Rightarrow> error + svgnode option" where
  "getDjsVisual g =
     (case filter_djs_visual g of
        Inl e \<Rightarrow> Inl e
      | Inr [] \<Rightarrow> Inr None
      | Inr (v # _) \<Rightarrow> Inr (Some v))"

text \<open>
  \<open>addElement\<close> clones the visual with all that is below it, sets the \<open>id\<close> of the clone
  to the id of the element, appends the clone to the elements group and, for a shape, sets
  its \<open>transform\<close>. Cloning an undefined visual throws, and so does setting an attribute
  of a node that is not an element.
\<close>

definition addElement ::
  "element \<Rightarrow> svgnode option \<Rightarrow> 'c minimap \<Rightarrow> error + (svgnode \<times> 'c minimap)" where
  "addElement element djsVisual m =
     (case djsVisual of
        None \<Rightarrow> Inl TypeError
      | Some (TextNode s) \<Rightarrow> Inl TypeError
      | Some (Elem i c t tg ch) \<Rightarrow>
          (let clone = Elem (Some (el_id element)) c
                         (if \<not> isConnection element then Some (el_x element, el_y element)
                          else t)
                         tg ch
           in Inr (clone, m\<lparr>this_elementsGroup := this_elementsGroup m @ [clone]\<rparr>)))"

text \<open>
  \<open>getElementById\<close> on the root node finds the first element with the id in document
  order, at any depth: a node before its children, the children before the next sibling.
  \<open>remove_id\<close> takes that element out of its parent, and gives nothing when there is no
  such element.
\<close>

fun remove_id :: "string \<Rightarrow> svgnode list \<Rightarrow> svgnode list option" where
  "remove_id a [] = None"
| "remove_id a (TextNode s # ns) = map_option (Cons (TextNode s)) (remove_id a ns)"
| "remove_id a (Elem i c t tg ch # ns) =
     (if i = Some a then Some ns
      else case remove_id a ch of
             Some ch' \<Rightarrow> Some (Elem i c t tg ch' # ns)
           | None \<Rightarrow> map_option (Cons (Elem i c t tg ch)) (remove_id a ns))"

definition removeElement :: "element \<Rightarrow> 'c minimap \<Rightarrow> 'c minimap" where
  "removeElement element m =
     (case remove_id (el_id element) (this_elementsGroup m) of
        None \<Rightarrow> m
      | Some ns \<Rightarrow> m\<lparr>this_elementsGroup := ns\<rparr>)"

text \<open>
  The rectangle that \<open>getBBox\<close> returns is a new object, which nothing else refers to: it
  is the object at address 0 of a store of its own.
\<close>

definition mapClickToDiagramPoint :: "'c canvas_api \<Rightarrow> dom_event \<Rightarrow> 'c minimap \<Rightarrow> point" where
  "mapClickToDiagramPoint api event m =
     (let (r, h) = fitAspectRatio 0 (js_div (svg_width m) (svg_height m))
                     (\<lambda>_. getBBox api (this_canvas m));
          bBox = h r;
          diagramX = map_num (offsetX event) (Fin 0) (svg_width m)
                       (b_x bBox) (js_add (b_x bBox) (b_width bBox));
          diagramY = map_num (offsetY event) (Fin 0) (svg_height m)
                       (b_y bBox) (js_add (b_y bBox) (b_height bBox))
      in \<lparr>p_x = diagramX, p_y = diagramY\<rparr>)"

definition setViewboxCenteredAroundPoint ::
  "'c canvas_api \<Rightarrow> point \<Rightarrow> 'c minimap \<Rightarrow> 'c minimap" where
  "setViewboxCenteredAroundPoint api pt m =
     (let cachedViewbox = viewbox_get api (this_canvas m);
          cachedViewboxWidth = b_width cachedViewbox;
          cachedViewboxHeight = b_height cachedViewbox
      in canvas_viewbox api
           \<lparr>b_x = js_sub (p_x pt) (js_div cachedViewboxWidth (Fin 2)),
            b_y = js_sub (p_y pt) (js_div cachedViewboxHeight (Fin 2)),
            b_width = cachedViewboxWidth,
            b_height = cachedViewboxHeight\<rparr> m)"

subsection \<open>Construction\<close>

text \<open>
  The constructor receives the canvas and the element registry; the size of the root node
  on the screen comes from the layout of the page.
\<close>

definition Minimap :: "'c \<Rightarrow> (string \<rightharpoonup> gfx) \<Rightarrow> jsnum \<Rightarrow> jsnum \<Rightarrow> 'c minimap" where
  "Minimap canvas elementRegistry w h =
     \<lparr>this_canvas = canvas,
      requests = [],
      this_elementRegistry = elementRegistry,
      this_state = \<lparr>isDragging = False, initialDragPosition = None, cachedViewbox = None\<rparr>,
      svg_viewBox = None,
      svg_width = w,
      svg_height = h,
      this_viewport = None,
      this_elementsGroup = [],
      parent_cursor = []\<rparr>"

subsection \<open>Handlers of the pointer events\<close>

text \<open>The node whose cursor is set is the container, in all four handlers.\<close>

definition setCursor :: "string \<Rightarrow> 'c minimap \<Rightarrow> 'c minimap" where
  "setCursor cursor m = m\<lparr>parent_cursor := cursor\<rparr>"

definition on_click :: "'c canvas_api \<Rightarrow> dom_event \<Rightarrow> 'c minimap \<Rightarrow> dom_event \<times> 'c minimap" where
  "on_click api event m =
     (let diagramPoint = mapClickToDiagramPoint api event m;
          m1 = setViewboxCenteredAroundPoint api diagramPoint m
      in (event, update api m1))"

definition on_mousedown :: "'c canvas_api \<Rightarrow> dom_event \<Rightarrow> 'c minimap \<Rightarrow> dom_event \<times> 'c minimap" where
  "on_mousedown api event m =
     (event,
      m\<lparr>this_state := (this_state m)
          \<lparr>isDragging := True,
           initialDragPosition := Some \<lparr>p_x = clientX event, p_y = clientY event\<rparr>,
           cachedViewbox := Some (viewbox_get api (this_canvas m))\<rparr>\<rparr>)"

definition on_mousemove :: "'c canvas_api \<Rightarrow> dom_event \<Rightarrow> 'c minimap \<Rightarrow> dom_event \<times> 'c minimap" where
  "on_mousemove api event m =
     (if isDragging (this_state m) then
        (let diagramPoint = mapClickToDiagramPoint api event m;
             m1 = setViewboxCenteredAroundPoint api diagramPoint m
         in (event, update api m1))
      else (event, m))"

definition on_mouseup :: "'c canvas_api \<Rightarrow> dom_event \<Rightarrow> 'c minimap \<Rightarrow> dom_event \<times> 'c minimap" where
  "on_mouseup api event m =
     (event,
      m\<lparr>this_state := (this_state m)
          \<lparr>isDragging := False, initialDragPosition := None, cachedViewbox := None\<rparr>\<rparr>)"

definition on_wheel :: "'c canvas_api \<Rightarrow> dom_event \<Rightarrow> 'c minimap \<Rightarrow> dom_event \<times> 'c minimap" where
  "on_wheel api event m =
     (let event1 = stopPropagation event;
          diagramPoint = mapClickToDiagramPoint api event1 m;
          m1 = setViewboxCenteredAroundPoint api diagramPoint m;
          zoom = zoom_get api (this_canvas m1);
          m2 = canvas_zoom api
                 (Math_min (Math_max (js_sub zoom (js_div (deltaY event1) ZOOM_SMOOTHING)) MAX_ZOOM)
                    MIN_ZOOM) m1
      in (event1, update api m2))"

text \<open>The handler that the container of the minimap binds to \<open>mousedown\<close>.\<close>

definition on_parent_mousedown :: "dom_event \<Rightarrow> dom_event" where
  "on_parent_mousedown event = stopPropagation event"

datatype pointer =
    ViewportEnter | ViewportLeave | ParentEnter | ParentLeave
  | Click | MouseDown | MouseMove | MouseUp | Wheel

text \<open>
  One pointer event with the handler it reaches: \<open>mouseenter\<close> and \<open>mouseleave\<close> on
  the indicator and on the container, \<open>click\<close> and \<open>wheel\<close> on the root node,
  \<open>mousedown\<close> on the indicator (from where it bubbles to the container), \<open>mousemove\<close>
  and \<open>mouseup\<close> on the document.
\<close>

fun dispatch ::
  "'c canvas_api \<Rightarrow> pointer \<Rightarrow> dom_event \<Rightarrow> 'c minimap \<Rightarrow> dom_event \<times> 'c minimap" where
  "dispatch api ViewportEnter event m = (event, setCursor MOVE_CURSOR m)"
| "dispatch api ViewportLeave event m = (event, setCursor CROSSHAIR_CURSOR m)"
| "dispatch api ParentEnter event m = (event, setCursor CROSSHAIR_CURSOR m)"
| "dispatch api ParentLeave event m = (event, setCursor DEFAULT_CURSOR m)"
| "dispatch api Click event m = on_click api event m"
| "dispatch api MouseDown event m =
     (let (event1, m1) = on_mousedown api event m in (on_parent_mousedown event1, m1))"
| "dispatch api MouseMove event m = on_mousemove api event m"
| "dispatch api MouseUp event m = on_mouseup api event m"
| "dispatch api Wheel event m = on_wheel api event m"

fun dispatch_all ::
  "'c canvas_api \<Rightarrow> (pointer \<times> dom_event) list \<Rightarrow> 'c minimap \<Rightarrow> 'c minimap" where
  "dispatch_all api [] m = m"
| "dispatch_all api ((k, event) # rest) m = dispatch_all api rest (snd (dispatch api k event m))"

subsection \<open>Handlers of the notifications of the diagram\<close>

definition on_added :: "'c canvas_api \<Rightarrow> element \<Rightarrow> gfx \<Rightarrow> 'c minimap \<Rightarrow> error + 'c minimap" where
  "on_added api element g m =
     (case getDjsVisual g of
        Inl e \<Rightarrow> Inl e
      | Inr djsVisual \<Rightarrow>
          (case addElement element djsVisual m of
             Inl e \<Rightarrow> Inl e
           | Inr (clone, m1) \<Rightarrow> Inr (update api m1)))"

text \<open>The body of the \<open>forEach\<close> of the handler of \<open>elements.changed\<close>, element by element.\<close>

fun changed_each :: "element list \<Rightarrow> 'c minimap \<Rightarrow> error + 'c minimap" where
  "changed_each [] m = Inr m"
| "changed_each (element # elements) m =
     (let m1 = removeElement element m in
      case this_elementRegistry m1 (el_id element) of
        None \<Rightarrow> changed_each elements m1
      | Some g \<Rightarrow>
          (case getDjsVisual g of
             Inl e \<Rightarrow> Inl e
           | Inr djsVisual \<Rightarrow>
               (case addElement element djsVisual m1 of
                  Inl e \<Rightarrow> Inl e
                | Inr (clone, m2) \<Rightarrow> changed_each elements m2)))"

definition on_elements_changed ::
  "'c canvas_api \<Rightarrow> element list \<Rightarrow> 'c minimap \<Rightarrow> error + 'c minimap" where
  "on_elements_changed api elements m =
     (case changed_each elements m of
        Inl e \<Rightarrow> Inl e
      | Inr m1 \<Rightarrow> Inr (update api m1))"

definition on_viewbox_changed :: "'c canvas_api \<Rightarrow> 'c minimap \<Rightarrow> 'c minimap" where
  "on_viewbox_changed api m = update api m"

text \<open>
  Modelled from the spec: the element registry of the diagram, whose code is not part of
  this repository's source. It maps the id of every element that the diagram currently
  knows to the graphics of the element (\<open>lookupRenderedVisual(elementId)\<close>, a visual
  handle or absent). The diagram enters an element before it announces it as added, and
  takes it out when it removes it. The minimap subscribes to the added and the changed
  notifications and to the change of the viewbox, and to nothing else.
\<close>

datatype notification =
    ElementAdded element gfx
  | ElementRemoved element
  | ElementsChanged "element list"
  | ViewboxChanged

fun notify :: "'c canvas_api \<Rightarrow> notification \<Rightarrow> 'c minimap \<Rightarrow> error + 'c minimap" where
  "notify api (ElementAdded element g) m =
     on_added api element g
       (m\<lparr>this_elementRegistry := (this_elementRegistry m)(el_id element \<mapsto> g)\<rparr>)"
| "notify api (ElementRemoved element) m =
     Inr (m\<lparr>this_elementRegistry := (this_elementRegistry m)(el_id element := None)\<rparr>)"
| "notify api (ElementsChanged elements) m = on_elements_changed api elements m"
| "notify api ViewboxChanged m = Inr (on_viewbox_changed api m)"

fun notify_all :: "'c canvas_api \<Rightarrow> notification list \<Rightarrow> 'c minimap \<Rightarrow> error + 'c minimap" where
  "notify_all api [] m = Inr m"
| "notify_all api (n # ns) m =
     (case notify api n m of Inl e \<Rightarrow> Inl e | Inr m1 \<Rightarrow> notify_all api ns m1)"

text \<open>
  The mirror elements are the child nodes of the elements group; \<open>top_ids\<close> lists their
  ids. \<open>no_ids\<close> says that no node of a forest carries an id.
\<close>

fun top_ids :: "svgnode list \<Rightarrow> string list" where
  "top_ids [] = []"
| "top_ids (TextNode s # ns) = top_ids ns"
| "top_ids (Elem i c t tg ch # ns) =
     (case i of None \<Rightarrow> top_ids ns | Some a \<Rightarrow> a # top_ids ns)"

fun no_ids :: "svgnode list \<Rightarrow> bool" where
  "no_ids [] = True"
| "no_ids (TextNode s # ns) = no_ids ns"
| "no_ids (Elem i c t tg ch # ns) = (i = None \<and> no_ids ch \<and> no_ids ns)"

definition mirror_ids :: "'c minimap \<Rightarrow> string set" where
  "mirror_ids m = set (top_ids (this_elementsGroup m))"

text \<open>
  Graphics whose child nodes are all elements, with a visual among them, and with no id
  on any node below the visual.
\<close>

definition plain_visual :: "gfx \<Rightarrow> bool" where
  "plain_visual g =
     (case getDjsVisual g of
        Inr (Some (Elem i c t tg ch)) \<Rightarrow> no_ids ch
      | _ \<Rightarrow> False)"

definition registry_ids :: "'c minimap \<Rightarrow> string set" where
  "registry_ids m = dom (this_elementRegistry m)"

text \<open>
  A sequence of notifications in which every removal is reported: an element is added
  under an id that is neither registered nor mirrored, with graphics that hold a visual
  and no id below it;
  only a registered element is removed; and every element removed is listed in a later
  changed notification, before its id is used again and before the sequence ends.
  The first list holds the registered ids, the second the ids removed and not yet reported.
\<close>

fun reported :: "string list \<Rightarrow> string list \<Rightarrow> notification list \<Rightarrow> bool" where
  "reported reg pend [] = (pend = [])"
| "reported reg pend (ElementAdded element g # ns) =
     (el_id element \<notin> set reg \<and> el_id element \<notin> set pend
      \<and> plain_visual g
      \<and> reported (el_id element # reg) pend ns)"
| "reported reg pend (ElementRemoved element # ns) =
     (el_id element \<in> set reg
      \<and> reported (removeAll (el_id element) reg) (el_id element # pend) ns)"
| "reported reg pend (ElementsChanged elements # ns) =
     reported reg (filter (\<lambda>i. i \<notin> set (map el_id elements)) pend) ns"
| "reported reg pend (ViewboxChanged # ns) = reported reg pend ns"

subsection \<open>A canvas to run the handlers on\<close>

text \<open>A canvas that keeps the viewbox and the zoom it is given.\<close>

record store_canvas =
  sc_bbox :: bounds
  sc_viewbox :: bounds
  sc_zoom :: jsnum

definition store_api :: "store_canvas canvas_api" where
  "store_api =
     \<lparr>getBBox = sc_bbox,
      viewbox_get = sc_viewbox,
      viewbox_set = (\<lambda>b c. c\<lparr>sc_viewbox := b\<rparr>),
      zoom_get = sc_zoom,
      zoom_set = (\<lambda>z c. c\<lparr>sc_zoom := z\<rparr>)\<rparr>"

definition box :: "real \<Rightarrow> real \<Rightarrow> real \<Rightarrow> real \<Rightarrow> bounds" where
  "box x y w h = \<lparr>b_x = Fin x, b_y = Fin y, b_width = Fin w, b_height = Fin h\<rparr>"

definition mouse :: "real \<Rightarrow> real \<Rightarrow> real \<Rightarrow> dom_event" where
  "mouse x y d =
     \<lparr>clientX = Fin x, clientY = Fin y, offsetX = Fin x, offsetY = Fin y, deltaY = Fin d,
      propagationStopped = False, defaultPrevented = False\<rparr>"

text \<open>
  A diagram whose content is a box of 100 by 100 at the origin, shown at zoom 1 with a
  viewbox of 640 by 360, and the minimap built on it, 320 by 180 on the screen.
\<close>

definition canvas0 :: store_canvas where
  "canvas0 = \<lparr>sc_bbox = box 0 0 100 100, sc_viewbox = box 0 0 640 360, sc_zoom = Fin 1\<rparr>"

definition minimap0 :: "store_canvas minimap" where
  "minimap0 = Minimap canvas0 Map.empty (Fin 320) (Fin 180)"

text \<open>
  That minimap after the button went down on the indicator, and then after the diagram
  was zoomed in by its own controls during the drag: the canvas shows half the width and
  height and announces the new viewbox.
\<close>

definition dragging1 :: "store_canvas minimap" where
  "dragging1 = snd (dispatch store_api MouseDown (mouse 10 10 0) minimap0)"

definition dragging2 :: "store_canvas minimap" where
  "dragging2 = on_viewbox_changed store_api
     (dragging1\<lparr>this_canvas :=
        (this_canvas dragging1)\<lparr>sc_viewbox := box 160 90 320 180, sc_zoom := Fin 2\<rparr>\<rparr>)"

text \<open>
  A task, a connection, and graphics that hold a visual and a hit box; and graphics
  whose visual holds a node with the id of the connection.
\<close>

definition task1 :: element where
  "task1 = \<lparr>el_id = ''Task_1'', el_x = Fin 10, el_y = Fin 20, waypoints = None\<rparr>"

definition flow1 :: element where
  "flow1 = \<lparr>el_id = ''Flow_1'', el_x = Fin 0, el_y = Fin 0,
            waypoints = Some [\<lparr>p_x = Fin 0, p_y = Fin 0\<rparr>, \<lparr>p_x = Fin 10, p_y = Fin 20\<rparr>]\<rparr>"

definition gfx1 :: gfx where
  "gfx1 = [Elem None (Some ''djs-visual'') None ''g'' [Elem None None None ''rect'' []],
           Elem None (Some ''djs-hit'') None ''rect'' []]"

definition gfx2 :: gfx where
  "gfx2 = [Elem None (Some ''djs-visual'') None ''g''
             [Elem (Some ''Flow_1'') None None ''rect'' []]]"

subsection \<open>The invariant of the mirror\<close>

text \<open>
  \<open>mirror_nodes\<close>: every child node of the elements group is an element with an id and
  with no id below it. With \<open>R\<close> the registered ids and \<open>P\<close> the ids removed and not
  yet reported: the elements group holds one such node for each id of \<open>R\<close> and of \<open>P\<close>
  and no other node, and all registered graphics are plain.
\<close>

fun mirror_nodes :: "svgnode list \<Rightarrow> bool" where
  "mirror_nodes [] = True"
| "mirror_nodes (TextNode s # ns) = False"
| "mirror_nodes (Elem i c t tg ch # ns) = (i \<noteq> None \<and> no_ids ch \<and> mirror_nodes ns)"

definition mirror_inv :: "string set \<Rightarrow> string set \<Rightarrow> 'c minimap \<Rightarrow> bool" where
  "mirror_inv R P m =
     (mirror_nodes (this_elementsGroup m)
      \<and> distinct (top_ids (this_elementsGroup m))
      \<and> mirror_ids m = R \<union> P
      \<and> registry_ids m = R
      \<and> R \<inter> P = {}
      \<and> (\<forall>i g. this_elementRegistry m i = Some g \<longrightarrow> plain_visual g))"

subsection \<open>The invariant of the drag state\<close>

definition drag_inv :: "dragstate \<Rightarrow> bool" where
  "drag_inv s =
     ((initialDragPosition s \<noteq> None) = isDragging s \<and> (cachedViewbox s \<noteq> None) = isDragging s)"

section \<open>Properties of the geometric functions\<close>

text \<open>
  In exact arithmetic the linear map takes the input range onto the output range, end to
  end.
\<close>

lemma map_num_in_range:
  assumes "inMin < inMax" and "outMin < outMax" and "inMin \<le> x" and "x \<le> inMax"
  shows "(\<exists>r. map_num (Fin x) (Fin inMin) (Fin inMax) (Fin outMin) (Fin outMax) = Fin r
              \<and> outMin \<le> r \<and> r \<le> outMax)
         \<and> map_num (Fin inMin) (Fin inMin) (Fin inMax) (Fin outMin) (Fin outMax) = Fin outMin
         \<and> map_num (Fin inMax) (Fin inMin) (Fin inMax) (Fin outMin) (Fin outMax) = Fin outMax"
proof -
  have pos: "0 < inMax - inMin" "0 < outMax - outMin" using assms by simp_all
  have lo: "0 \<le> (x - inMin) * (outMax - outMin) / (inMax - inMin)"
    using assms pos by simp
  have "(x - inMin) * (outMax - outMin) \<le> (inMax - inMin) * (outMax - outMin)"
    using assms pos by (simp add: mult_right_mono)
  then have hi: "(x - inMin) * (outMax - outMin) / (inMax - inMin) \<le> outMax - outMin"
    using pos by (simp add: pos_divide_le_eq mult.commute)
  show ?thesis
    using assms lo hi by (simp add: map_num_def js_sub_def)
qed

text \<open>
  C2. For a box of positive width and height and a positive target ratio, all finite,
  \<open>fitAspectRatio\<close> returns the object it was given, and the box that this object then
  holds has the target ratio and the centre of the original box. When the ratio of the box
  exceeds the target the height becomes the width divided by the target and \<open>y\<close> moves up
  by half the growth; when it is below the target the width becomes the height times the
  target and \<open>x\<close> moves left by half the growth; when it equals the target nothing changes.
\<close>

theorem fitAspectRatio_fits:
  assumes hb: "h b = box x y w ht"
    and pos: "0 < w" "0 < ht" "0 < r"
  shows "fst (fitAspectRatio b (Fin r) h) = b
    \<and> js_div (b_width (snd (fitAspectRatio b (Fin r) h) b))
             (b_height (snd (fitAspectRatio b (Fin r) h) b)) = Fin r
    \<and> js_add (b_x (snd (fitAspectRatio b (Fin r) h) b))
             (js_div (b_width (snd (fitAspectRatio b (Fin r) h) b)) (Fin 2)) = Fin (x + w / 2)
    \<and> js_add (b_y (snd (fitAspectRatio b (Fin r) h) b))
             (js_div (b_height (snd (fitAspectRatio b (Fin r) h) b)) (Fin 2)) = Fin (y + ht / 2)
    \<and> (r < w / ht \<longrightarrow>
          snd (fitAspectRatio b (Fin r) h) b = box x (y - (w / r - ht) / 2) w (w / r))
    \<and> (w / ht < r \<longrightarrow>
          snd (fitAspectRatio b (Fin r) h) b = box (x - (ht * r - w) / 2) y (ht * r) ht)
    \<and> (w / ht = r \<longrightarrow> snd (fitAspectRatio b (Fin r) h) = h)"
proof -
  consider (gt) "r < w / ht" | (lt) "w / ht < r" | (eq) "w / ht = r" by linarith
  then show ?thesis
  proof cases
    case gt
    then show ?thesis using hb pos
      by (simp add: fitAspectRatio_def box_def js_gt_def js_sub_def Let_def field_simps)
  next
    case lt
    then show ?thesis using hb pos
      by (simp add: fitAspectRatio_def box_def js_gt_def js_sub_def Let_def field_simps)
  next
    case eq
    then show ?thesis using hb pos
      by (auto simp add: fitAspectRatio_def box_def js_gt_def js_sub_def Let_def)
  qed
qed

theorem fitAspectRatio_fits_witness:
  "fst (fitAspectRatio 0 (Fin (16 / 9)) (\<lambda>_. box 0 0 100 100)) = 0
   \<and> snd (fitAspectRatio 0 (Fin (16 / 9)) (\<lambda>_. box 0 0 100 100)) 0
       = box (- (350 / 9)) 0 (1600 / 9) 100"
  using fitAspectRatio_fits [of "\<lambda>_. box 0 0 100 100" 0 0 0 100 100 "16 / 9"]
  by simp

section \<open>The linear map on doubles\<close>

lemma find_exp_Some:
  "find_exp n k0 y = Some k \<Longrightarrow>
     k0 \<le> k \<and> k < k0 + n \<and> y < 2 ^ (53 + k) \<and> (k0 < k \<longrightarrow> 2 ^ (52 + k) \<le> y)"
proof (induction n arbitrary: k0)
  case 0
  then show ?case by simp
next
  case (Suc n)
  show ?case
  proof (cases "y < 2 ^ (53 + k0)")
    case True
    with Suc.prems show ?thesis by simp
  next
    case False
    with Suc.prems have "find_exp n (Suc k0) y = Some k" by simp
    from Suc.IH [OF this] have ih: "Suc k0 \<le> k" "k < Suc k0 + n" "y < 2 ^ (53 + k)"
      "Suc k0 < k \<longrightarrow> 2 ^ (52 + k) \<le> y" by simp_all
    have "2 ^ (52 + k) \<le> y"
    proof (cases "k = Suc k0")
      case True
      then show ?thesis using False by simp
    next
      case False
      then show ?thesis using ih by simp
    qed
    then show ?thesis using ih by simp
  qed
qed

lemma find_exp_None:
  "find_exp n k0 y = None \<Longrightarrow> 0 < n \<Longrightarrow> 2 ^ (52 + k0 + n) \<le> y"
proof (induction n arbitrary: k0)
  case 0
  then show ?case by simp
next
  case (Suc n)
  then have ge: "\<not> y < 2 ^ (53 + k0)" and rest: "find_exp n (Suc k0) y = None"
    by (simp_all split: if_splits)
  show ?case
  proof (cases "n = 0")
    case True
    then show ?thesis using ge by simp
  next
    case False
    then show ?thesis using Suc.IH [OF rest] by (simp add: add.assoc)
  qed
qed

lemma find_exp_eq:
  "k0 \<le> k \<Longrightarrow> k < k0 + n \<Longrightarrow> y < 2 ^ (53 + k) \<Longrightarrow> (k0 < k \<longrightarrow> 2 ^ (52 + k) \<le> y) \<Longrightarrow>
     find_exp n k0 y = Some k"
proof (induction n arbitrary: k0)
  case 0
  then show ?case by simp
next
  case (Suc n)
  show ?case
  proof (cases "y < 2 ^ (53 + k0)")
    case True
    have "k = k0"
    proof (rule ccontr)
      assume "k \<noteq> k0"
      then have lt: "k0 < k" using Suc.prems by simp
      then have "(2::real) ^ (52 + k) \<le> y" using Suc.prems by simp
      moreover have "(2::real) ^ (53 + k0) \<le> 2 ^ (52 + k)"
        using lt by (intro power_increasing) simp_all
      ultimately show False using True by simp
    qed
    then show ?thesis using True by simp
  next
    case False
    then have "k \<noteq> k0" using Suc.prems by auto
    then have "Suc k0 \<le> k" using Suc.prems by simp
    moreover have "k < Suc k0 + n" using Suc.prems by simp
    ultimately have "find_exp n (Suc k0) y = Some k"
      using Suc.prems by (intro Suc.IH) simp_all
    then show ?thesis using False by simp
  qed
qed

lemma round_even_int [simp]: "round_even (of_int n) = n"
  by (simp add: round_even_def)

lemma round_even_ge: "of_int n \<le> x \<Longrightarrow> n \<le> round_even x"
proof -
  assume "of_int n \<le> x"
  then have "n \<le> \<lfloor>x\<rfloor>" by (simp add: le_floor_iff)
  then show ?thesis by (simp add: round_even_def Let_def)
qed

lemma round_even_le: "x \<le> of_int n \<Longrightarrow> round_even x \<le> n"
proof (cases "x = of_int \<lfloor>x\<rfloor>")
  case True
  assume "x \<le> of_int n"
  then have "\<lfloor>x\<rfloor> \<le> n" using True by linarith
  moreover have "round_even x = \<lfloor>x\<rfloor>" using True round_even_int by metis
  ultimately show ?thesis by simp
next
  case False
  assume le: "x \<le> of_int n"
  have "of_int \<lfloor>x\<rfloor> < x" using False of_int_floor_le [of x] by linarith
  then have "\<lfloor>x\<rfloor> < n" using le by linarith
  then show ?thesis by (simp add: round_even_def Let_def)
qed


lemma round_even_neg: "round_even (- x) = - round_even x"
proof (cases "x = of_int \<lfloor>x\<rfloor>")
  case True
  then obtain n where "x = of_int n" by blast
  then have "- x = of_int (- n)" by simp
  then show ?thesis using \<open>x = of_int n\<close> round_even_int by metis
next
  case False
  then have lt: "of_int \<lfloor>x\<rfloor> < x" using of_int_floor_le [of x] by linarith
  have ub: "x < of_int \<lfloor>x\<rfloor> + 1" by linarith
  have fl: "\<lfloor>- x\<rfloor> = - \<lfloor>x\<rfloor> - 1"
  proof (rule floor_unique)
    have e: "real_of_int (- \<lfloor>x\<rfloor> - 1) = - real_of_int \<lfloor>x\<rfloor> - 1" by simp
    show "of_int (- \<lfloor>x\<rfloor> - 1) \<le> - x" unfolding e using ub by linarith
    show "- x < of_int (- \<lfloor>x\<rfloor> - 1) + 1" unfolding e using lt by linarith
  qed
  show ?thesis
    unfolding round_even_def Let_def fl
    by (auto simp add: field_simps)
qed


lemma scale_pos [simp]: "0 < scale"
  by (simp add: scale_def)

lemma scale_nonneg [simp]: "0 \<le> scale"
  by (simp add: scale_def)

lemma overflow_eq: "overflow = 2 ^ (52 + 0 + 2046)"
  by (simp add: overflow_def)

lemma round_double_at:
  assumes "k < 2046" and "\<bar>x\<bar> * scale < 2 ^ (53 + k)"
    and "k = 0 \<or> 2 ^ (52 + k) \<le> \<bar>x\<bar> * scale"
  shows "round_double x =
     (if overflow \<le> \<bar>of_int (round_even (x * scale / 2 ^ k))\<bar> * 2 ^ k
      then signed_inf (x < 0)
      else Fin (of_int (round_even (x * scale / 2 ^ k)) * 2 ^ k / scale))"
proof -
  have "find_exp 2046 0 (\<bar>x\<bar> * scale) = Some k"
    using assms by (intro find_exp_eq) auto
  then show ?thesis
    by (simp only: round_double_def option.case Let_def)
qed

lemmas double_eval = scale_def overflow_def round_even_def

lemma double_0: "round_double 0 = Fin 0"
  using round_double_at [of 0 0] by (simp add: double_eval)

lemma double_3: "round_double 3 = Fin 3"
  using round_double_at [of 1023 3] by (simp add: double_eval)

lemma double_tenth: "round_double tenth = Fin tenth"
  using round_double_at [of 1018 tenth] by (simp add: tenth_def double_eval)

lemma double_three_tenths: "round_double (3 * tenth) = Fin three_tenths"
  using round_double_at [of 1020 "3 * tenth"]
  by (simp add: tenth_def three_tenths_def double_eval)

lemma double_third: "round_double (three_tenths / 3) = Fin above_tenth"
  using round_double_at [of 1018 "three_tenths / 3"]
  by (simp add: three_tenths_def above_tenth_def double_eval)

lemma double_above_tenth: "round_double above_tenth = Fin above_tenth"
  using round_double_at [of 1018 above_tenth] by (simp add: above_tenth_def double_eval)

lemma round_double_neg: "round_double (- x) = js_neg (round_double x)"
proof (cases "find_exp 2046 0 (\<bar>x\<bar> * scale)")
  case None
  from find_exp_None [OF None] have "(2::real) ^ (52 + 0 + 2046) \<le> \<bar>x\<bar> * scale" by simp
  moreover have "(0::real) < 2 ^ (52 + 0 + 2046)" by simp
  ultimately have "x \<noteq> 0" by auto
  then show ?thesis using None by (auto simp add: round_double_def signed_inf_def)
next
  case (Some k)
  let ?m = "round_even (x * scale / 2 ^ k)"
  have m: "round_even (- x * scale / 2 ^ k) = - ?m"
    using round_even_neg [of "x * scale / 2 ^ k"] by simp
  show ?thesis
  proof (cases "overflow \<le> \<bar>real_of_int ?m\<bar> * 2 ^ k")
    case True
    have "x \<noteq> 0"
    proof
      assume "x = 0"
      then have "?m = 0" by (simp add: round_even_def)
      then show False using True by (simp add: overflow_def)
    qed
    then show ?thesis using Some True m
      by (auto simp add: round_double_def signed_inf_def Let_def)
  next
    case False
    then show ?thesis using Some m
      by (simp add: round_double_def Let_def)
  qed
qed

lemma round_double_nonneg:
  assumes "0 \<le> x"
  shows "round_double x = PInf \<or> (\<exists>r. round_double x = Fin r \<and> 0 \<le> r)"
proof (cases "find_exp 2046 0 (\<bar>x\<bar> * scale)")
  case None
  then show ?thesis using assms by (simp add: round_double_def signed_inf_def)
next
  case (Some k)
  let ?m = "round_even (x * scale / 2 ^ k)"
  have "0 \<le> x * scale / 2 ^ k" using assms
    by (intro divide_nonneg_pos mult_nonneg_nonneg) simp_all
  then have m: "0 \<le> ?m"
    using round_even_ge [of 0 "x * scale / 2 ^ k"] by simp
  show ?thesis
  proof (cases "overflow \<le> \<bar>real_of_int ?m\<bar> * 2 ^ k")
    case True
    then show ?thesis using Some assms by (simp add: round_double_def signed_inf_def Let_def)
  next
    case False
    then have "round_double x = Fin (real_of_int ?m * 2 ^ k / scale)"
      using Some by (simp add: round_double_def Let_def)
    moreover have "0 \<le> real_of_int ?m * 2 ^ k / scale" using m by simp
    ultimately show ?thesis by blast
  qed
qed

lemma is_doubleD:
  assumes "is_double d"
  obtains k m where "find_exp 2046 0 (\<bar>d\<bar> * scale) = Some k"
    and "\<bar>real_of_int m\<bar> * 2 ^ k < overflow"
    and "d * scale = real_of_int m * 2 ^ k"
proof (cases "find_exp 2046 0 (\<bar>d\<bar> * scale)")
  case None
  then have False using assms
    by (simp add: is_double_def round_double_def signed_inf_def split: if_splits)
  then show ?thesis ..
next
  case (Some k)
  let ?m = "round_even (d * scale / 2 ^ k)"
  have no: "\<not> overflow \<le> \<bar>real_of_int ?m\<bar> * 2 ^ k"
    and eq: "real_of_int ?m * 2 ^ k / scale = d"
    using assms Some
    by (auto simp add: is_double_def round_double_def signed_inf_def Let_def split: if_splits)
  have "d * scale = real_of_int ?m * 2 ^ k"
    using eq scale_pos by (simp add: field_simps)
  then show ?thesis using that [OF Some, of ?m] no by simp
qed


lemma round_pos_ge:
  assumes d: "is_double d" and pos: "0 < d" and le: "d \<le> z"
  shows "round_double z = PInf \<or> (\<exists>r. round_double z = Fin r \<and> d \<le> r)"
proof (cases "find_exp 2046 0 (\<bar>z\<bar> * scale)")
  case None
  then show ?thesis using pos le by (simp add: round_double_def signed_inf_def)
next
  case (Some kz)
  from d obtain kd md where kd: "find_exp 2046 0 (\<bar>d\<bar> * scale) = Some kd"
    and eq: "d * scale = real_of_int md * 2 ^ kd"
    by (rule is_doubleD)
  have zpos: "0 < z" using pos le by simp
  have DY: "d * scale \<le> z * scale" using le by simp
  from find_exp_Some [OF Some] zpos
  have Y: "z * scale < 2 ^ (53 + kz)" "0 < kz \<longrightarrow> 2 ^ (52 + kz) \<le> z * scale" by simp_all
  from find_exp_Some [OF kd] pos
  have D: "d * scale < 2 ^ (53 + kd)" "0 < kd \<longrightarrow> 2 ^ (52 + kd) \<le> d * scale" by simp_all
  have kk: "kd \<le> kz"
  proof (rule ccontr)
    assume "\<not> kd \<le> kz"
    then have lt: "kz < kd" by simp
    then have "(2::real) ^ (53 + kz) \<le> 2 ^ (52 + kd)" by (intro power_increasing) simp_all
    moreover have "2 ^ (52 + kd) \<le> d * scale" using D lt by simp
    ultimately show False using Y DY by linarith
  qed
  let ?m = "round_even (z * scale / 2 ^ kz)"
  have ge: "d * scale \<le> real_of_int ?m * 2 ^ kz"
  proof (cases "kd = kz")
    case True
    have "real_of_int md \<le> z * scale / 2 ^ kz"
      using DY eq True by (simp add: pos_le_divide_eq)
    then have "md \<le> ?m" by (rule round_even_ge)
    then have "real_of_int md * 2 ^ kz \<le> real_of_int ?m * 2 ^ kz" by simp
    then show ?thesis using eq True by simp
  next
    case False
    then have lt: "kd < kz" using kk by simp
    then have "2 ^ (52 + kz) \<le> z * scale" using Y by simp
    then have "real_of_int (2 ^ 52) \<le> z * scale / 2 ^ kz"
      by (simp add: pos_le_divide_eq power_add)
    then have "2 ^ 52 \<le> ?m" by (rule round_even_ge)
    then have "real_of_int (2 ^ 52) \<le> real_of_int ?m" by (simp only: of_int_le_iff)
    then have "real_of_int (2 ^ 52) * 2 ^ kz \<le> real_of_int ?m * 2 ^ kz" by simp
    then have "(2::real) ^ (52 + kz) \<le> real_of_int ?m * 2 ^ kz" by (simp add: power_add)
    moreover have "(2::real) ^ (53 + kd) \<le> 2 ^ (52 + kz)"
      using lt by (intro power_increasing) simp_all
    ultimately show ?thesis using D by linarith
  qed
  show ?thesis
  proof (cases "overflow \<le> \<bar>real_of_int ?m\<bar> * 2 ^ kz")
    case True
    then show ?thesis using Some zpos by (simp add: round_double_def signed_inf_def Let_def)
  next
    case False
    then have "round_double z = Fin (real_of_int ?m * 2 ^ kz / scale)"
      using Some by (simp add: round_double_def Let_def)
    moreover have "d \<le> real_of_int ?m * 2 ^ kz / scale"
      using ge by (simp add: pos_le_divide_eq)
    ultimately show ?thesis by blast
  qed
qed

lemma round_pos_le:
  assumes d: "is_double d" and pos: "0 < z" and le: "z \<le> d"
  shows "\<exists>r. round_double z = Fin r \<and> r \<le> d"
proof -
  from d obtain kd md where kd: "find_exp 2046 0 (\<bar>d\<bar> * scale) = Some kd"
    and no: "\<bar>real_of_int md\<bar> * 2 ^ kd < overflow"
    and eq: "d * scale = real_of_int md * 2 ^ kd"
    by (rule is_doubleD)
  have dpos: "0 < d" using pos le by simp
  have YD: "z * scale \<le> d * scale" using le by simp
  have Dpos: "0 < d * scale" using dpos by simp
  have Dlt: "d * scale < overflow"
  proof -
    have "real_of_int md * 2 ^ kd \<le> \<bar>real_of_int md\<bar> * 2 ^ kd" by (simp add: mult_right_mono)
    then show ?thesis using no eq by linarith
  qed
  from find_exp_Some [OF kd] dpos
  have D: "d * scale < 2 ^ (53 + kd)" "0 < kd \<longrightarrow> 2 ^ (52 + kd) \<le> d * scale" by simp_all
  obtain kz where Some: "find_exp 2046 0 (\<bar>z\<bar> * scale) = Some kz"
  proof (cases "find_exp 2046 0 (\<bar>z\<bar> * scale)")
    case None
    from find_exp_None [OF None] have "overflow \<le> \<bar>z\<bar> * scale" by (simp add: overflow_eq)
    then have False using pos YD Dlt by simp
    then show ?thesis ..
  next
    case (Some k)
    then show ?thesis by (rule that)
  qed
  from find_exp_Some [OF Some] pos
  have Y: "z * scale < 2 ^ (53 + kz)" "0 < kz \<longrightarrow> 2 ^ (52 + kz) \<le> z * scale" by simp_all
  have kk: "kz \<le> kd"
  proof (rule ccontr)
    assume "\<not> kz \<le> kd"
    then have lt: "kd < kz" by simp
    then have "(2::real) ^ (53 + kd) \<le> 2 ^ (52 + kz)" by (intro power_increasing) simp_all
    moreover have "2 ^ (52 + kz) \<le> z * scale" using Y lt by simp
    ultimately show False using D YD by linarith
  qed
  let ?m = "round_even (z * scale / 2 ^ kz)"
  have "real_of_int 0 \<le> z * scale / 2 ^ kz" using pos
    by (simp add: less_imp_le)
  then have m0: "0 \<le> ?m" by (rule round_even_ge)
  have up: "real_of_int ?m * 2 ^ kz \<le> d * scale"
  proof (cases "kz = kd")
    case True
    have "z * scale / 2 ^ kz \<le> real_of_int md"
      using YD eq True by (simp add: pos_divide_le_eq)
    then have "?m \<le> md" by (rule round_even_le)
    then have "real_of_int ?m * 2 ^ kz \<le> real_of_int md * 2 ^ kz" by simp
    then show ?thesis using eq True by simp
  next
    case False
    then have lt: "kz < kd" using kk by simp
    have "z * scale / 2 ^ kz \<le> real_of_int (2 ^ 53)"
      using Y by (simp add: pos_divide_le_eq power_add)
    then have "?m \<le> 2 ^ 53" by (rule round_even_le)
    then have "real_of_int ?m \<le> real_of_int (2 ^ 53)" by (simp only: of_int_le_iff)
    then have "real_of_int ?m * 2 ^ kz \<le> real_of_int (2 ^ 53) * 2 ^ kz" by simp
    then have "real_of_int ?m * 2 ^ kz \<le> (2::real) ^ (53 + kz)" by (simp add: power_add)
    moreover have "(2::real) ^ (53 + kz) \<le> 2 ^ (52 + kd)"
      using lt by (intro power_increasing) simp_all
    moreover have "2 ^ (52 + kd) \<le> d * scale" using D lt by simp
    ultimately show ?thesis by linarith
  qed
  have "\<bar>real_of_int ?m\<bar> * 2 ^ kz = real_of_int ?m * 2 ^ kz" using m0 by simp
  then have "\<not> overflow \<le> \<bar>real_of_int ?m\<bar> * 2 ^ kz" using up Dlt by linarith
  then have "round_double z = Fin (real_of_int ?m * 2 ^ kz / scale)"
    using Some by (simp add: round_double_def Let_def)
  moreover have "real_of_int ?m * 2 ^ kz / scale \<le> d"
    using up by (simp add: pos_divide_le_eq)
  ultimately show ?thesis by blast
qed


lemma is_double_neg: "is_double d \<Longrightarrow> is_double (- d)"
  by (simp add: is_double_def round_double_neg)

lemma round_ge:
  assumes d: "is_double d" and le: "d \<le> z"
  shows "round_double z = PInf \<or> (\<exists>r. round_double z = Fin r \<and> d \<le> r)"
proof -
  consider (pos) "0 < d" | (mid) "d \<le> 0" "0 \<le> z" | (neg) "z < 0" using le by linarith
  then show ?thesis
  proof cases
    case pos
    then show ?thesis using d le by (intro round_pos_ge)
  next
    case mid
    from round_double_nonneg [OF mid(2)] mid(1) show ?thesis by force
  next
    case neg
    have "\<exists>r. round_double (- z) = Fin r \<and> r \<le> - d"
      using neg le by (intro round_pos_le is_double_neg d) simp_all
    then obtain r where r: "round_double (- z) = Fin r" "r \<le> - d" by blast
    have "round_double z = js_neg (round_double (- z))"
      using round_double_neg [of "- z"] by simp
    then have "round_double z = Fin (- r)" using r by simp
    moreover have "d \<le> - r" using r by simp
    ultimately show ?thesis by blast
  qed
qed

lemma double_unit: "is_double (1 / scale)"
proof -
  have "round_double (1 / scale) = Fin (1 / scale)"
    using round_double_at [of 0 "1 / scale"]
    by (simp add: round_even_def overflow_def)
  then show ?thesis by (simp add: is_double_def)
qed

lemma double_diff_pos:
  assumes a: "is_double a" and b: "is_double b" and lt: "a < b"
    and I: "round_double (b - a) = Fin I"
  shows "0 < I"
proof -
  from a obtain ka ma where ea: "a * scale = real_of_int ma * 2 ^ ka" by (rule is_doubleD)
  from b obtain kb mb where eb: "b * scale = real_of_int mb * 2 ^ kb" by (rule is_doubleD)
  have "(b - a) * scale = real_of_int (mb * 2 ^ kb - ma * 2 ^ ka)"
    using ea eb by (simp add: algebra_simps)
  moreover have "0 < (b - a) * scale" using lt by simp
  ultimately have "0 < real_of_int (mb * 2 ^ kb - ma * 2 ^ ka)" by simp
  then have "1 \<le> mb * 2 ^ kb - ma * 2 ^ ka" by linarith
  then have "1 \<le> real_of_int (mb * 2 ^ kb - ma * 2 ^ ka)" by (simp only: of_int_1_le_iff)
  then have "1 \<le> (b - a) * scale"
    using \<open>(b - a) * scale = real_of_int (mb * 2 ^ kb - ma * 2 ^ ka)\<close> by simp
  then have "1 / scale \<le> b - a" by (simp add: pos_divide_le_eq)
  from round_ge [OF double_unit this] I have "1 / scale \<le> I" by simp
  moreover have "0 < 1 / scale" by simp
  ultimately show ?thesis by linarith
qed

lemma map_double_exact:
  assumes "exact_steps x inMin inMax outMin outMax" and "inMin < inMax"
  shows "map_double (Fin x) (Fin inMin) (Fin inMax) (Fin outMin) (Fin outMax)
           = map_num (Fin x) (Fin inMin) (Fin inMax) (Fin outMin) (Fin outMax)"
  using assms
  by (simp add: exact_steps_def is_double_def map_double_def map_num_def js_sub_def)


lemma step_mul:
  assumes "t = PInf \<or> (\<exists>a. t = Fin a \<and> 0 \<le> a)" and "0 < R"
  shows "to_double (js_mul t (Fin R)) = PInf
         \<or> (\<exists>b. to_double (js_mul t (Fin R)) = Fin b \<and> 0 \<le> b)"
  using assms(1)
proof
  assume "t = PInf"
  then show ?thesis using assms(2) by (simp add: signed_inf_def)
next
  assume "\<exists>a. t = Fin a \<and> 0 \<le> a"
  then obtain a where a: "t = Fin a" "0 \<le> a" by blast
  then have "0 \<le> a * R" using assms(2) by simp
  from round_double_nonneg [OF this] show ?thesis using a by simp
qed

lemma step_div:
  assumes "t = PInf \<or> (\<exists>a. t = Fin a \<and> 0 \<le> a)" and "0 < I"
  shows "to_double (js_div t (Fin I)) = PInf
         \<or> (\<exists>b. to_double (js_div t (Fin I)) = Fin b \<and> 0 \<le> b)"
  using assms(1)
proof
  assume "t = PInf"
  then show ?thesis using assms(2) by (simp add: signed_inf_def)
next
  assume "\<exists>a. t = Fin a \<and> 0 \<le> a"
  then obtain a where a: "t = Fin a" "0 \<le> a" by blast
  then have "0 \<le> a / I" using assms(2) by simp
  from round_double_nonneg [OF this] show ?thesis using a assms(2) by simp
qed

lemma step_add:
  assumes "t = PInf \<or> (\<exists>a. t = Fin a \<and> 0 \<le> a)" and "is_double m"
  shows "to_double (js_add t (Fin m)) = PInf
         \<or> (\<exists>r. to_double (js_add t (Fin m)) = Fin r \<and> m \<le> r)"
  using assms(1)
proof
  assume "t = PInf"
  then show ?thesis by simp
next
  assume "\<exists>a. t = Fin a \<and> 0 \<le> a"
  then obtain a where a: "t = Fin a" "0 \<le> a" by blast
  then have "m \<le> a + m" by simp
  from round_ge [OF assms(2) this] show ?thesis using a by simp
qed

text \<open>
  C9, as the code has it. The four bounds are doubles with \<open>inMin < inMax\<close> and
  \<open>outMin < outMax\<close>, \<open>x\<close> lies from \<open>inMin\<close> to \<open>inMax\<close>, and the two ranges
  \<open>inMax - inMin\<close> and \<open>outMax - outMin\<close>, as the code computes them, are finite.
  Then the function, as it is computed on doubles, gives a number that is not \<open>NaN\<close>
  and not below \<open>outMin\<close>, and it takes \<open>inMin\<close> to \<open>outMin\<close> exactly. That the
  result is not above \<open>outMax\<close>, and that \<open>inMax\<close> goes to \<open>outMax\<close>, holds when no
  operator of the computation rounds.
\<close>

theorem map_double_lower_end:
  assumes doubles: "is_double inMin" "is_double inMax" "is_double outMin" "is_double outMax"
    and order: "inMin < inMax" "outMin < outMax" "inMin \<le> x" "x \<le> inMax"
    and ranges: "round_double (inMax - inMin) = Fin I" "round_double (outMax - outMin) = Fin R"
  shows "map_double (Fin x) (Fin inMin) (Fin inMax) (Fin outMin) (Fin outMax) \<noteq> NaN
    \<and> \<not> js_lt (map_double (Fin x) (Fin inMin) (Fin inMax) (Fin outMin) (Fin outMax)) (Fin outMin)
    \<and> map_double (Fin inMin) (Fin inMin) (Fin inMax) (Fin outMin) (Fin outMax) = Fin outMin
    \<and> (exact_steps x inMin inMax outMin outMax \<longrightarrow>
         (\<exists>r. map_double (Fin x) (Fin inMin) (Fin inMax) (Fin outMin) (Fin outMax) = Fin r
              \<and> outMin \<le> r \<and> r \<le> outMax))
    \<and> (exact_steps inMax inMin inMax outMin outMax \<longrightarrow>
         map_double (Fin inMax) (Fin inMin) (Fin inMax) (Fin outMin) (Fin outMax) = Fin outMax)"
proof -
  have Ipos: "0 < I" using doubles(1,2) order(1) ranges(1) by (rule double_diff_pos)
  have Rpos: "0 < R" using doubles(3,4) order(2) ranges(2) by (rule double_diff_pos)
  let ?t1 = "to_double (js_sub (Fin x) (Fin inMin))"
  let ?t2 = "to_double (js_mul ?t1 (Fin R))"
  let ?t3 = "to_double (js_div ?t2 (Fin I))"
  let ?t4 = "to_double (js_add ?t3 (Fin outMin))"
  have res: "map_double (Fin x) (Fin inMin) (Fin inMax) (Fin outMin) (Fin outMax) = ?t4"
    using ranges by (simp add: map_double_def js_sub_def)
  have "0 \<le> x - inMin" using order(3) by simp
  from round_double_nonneg [OF this]
  have "?t1 = PInf \<or> (\<exists>a. ?t1 = Fin a \<and> 0 \<le> a)" by (simp add: js_sub_def)
  then have "?t2 = PInf \<or> (\<exists>a. ?t2 = Fin a \<and> 0 \<le> a)" using Rpos by (rule step_mul)
  then have "?t3 = PInf \<or> (\<exists>a. ?t3 = Fin a \<and> 0 \<le> a)" using Ipos by (rule step_div)
  then have "?t4 = PInf \<or> (\<exists>r. ?t4 = Fin r \<and> outMin \<le> r)" using doubles(3) by (rule step_add)
  then have lower: "?t4 \<noteq> NaN \<and> \<not> js_lt ?t4 (Fin outMin)" by auto
  have d0: "round_double 0 = Fin 0" by (rule double_0)
  have low_end: "map_double (Fin inMin) (Fin inMin) (Fin inMax) (Fin outMin) (Fin outMax)
      = Fin outMin"
    using ranges Ipos doubles(3)
    by (simp add: map_double_def js_sub_def d0 is_double_def)
  have exact: "exact_steps x inMin inMax outMin outMax \<longrightarrow>
      (\<exists>r. map_double (Fin x) (Fin inMin) (Fin inMax) (Fin outMin) (Fin outMax) = Fin r
           \<and> outMin \<le> r \<and> r \<le> outMax)"
    using map_double_exact [of x inMin inMax outMin outMax]
      map_num_in_range [OF order] order(1) by simp
  have exact_end: "exact_steps inMax inMin inMax outMin outMax \<longrightarrow>
      map_double (Fin inMax) (Fin inMin) (Fin inMax) (Fin outMin) (Fin outMax) = Fin outMax"
    using map_double_exact [of inMax inMin inMax outMin outMax]
      map_num_in_range [OF order] order(1) by simp
  show ?thesis
    using res lower low_end exact exact_end by simp
qed


lemma double_1: "round_double 1 = Fin 1"
  using round_double_at [of 1022 1] by (simp add: double_eval)

lemma double_2: "round_double 2 = Fin 2"
  using round_double_at [of 1023 2] by (simp add: double_eval)

lemma double_5: "round_double 5 = Fin 5"
  using round_double_at [of 1024 5] by (simp add: double_eval)

lemma double_10: "round_double 10 = Fin 10"
  using round_double_at [of 1025 10] by (simp add: double_eval)

lemma double_20: "round_double 20 = Fin 20"
  using round_double_at [of 1026 20] by (simp add: double_eval)

theorem map_double_lower_end_witness:
  "map_double (Fin 1) (Fin 0) (Fin 2) (Fin 0) (Fin 10) \<noteq> NaN
   \<and> \<not> js_lt (map_double (Fin 1) (Fin 0) (Fin 2) (Fin 0) (Fin 10)) (Fin 0)
   \<and> map_double (Fin 0) (Fin 0) (Fin 2) (Fin 0) (Fin 10) = Fin 0
   \<and> (\<exists>r. map_double (Fin 1) (Fin 0) (Fin 2) (Fin 0) (Fin 10) = Fin r \<and> 0 \<le> r \<and> r \<le> 10)
   \<and> map_double (Fin 2) (Fin 0) (Fin 2) (Fin 0) (Fin 10) = Fin 10"
proof -
  have d0: "is_double 0" and d2: "is_double 2" and d10: "is_double 10"
    by (simp_all add: is_double_def double_0 double_2 double_10)
  have r2: "round_double (2 - 0) = Fin 2" and r10: "round_double (10 - 0) = Fin 10"
    by (simp_all add: double_2 double_10)
  have e1: "exact_steps 1 0 2 0 10"
    by (simp add: exact_steps_def is_double_def double_1 double_2 double_5 double_10)
  have e2: "exact_steps 2 0 2 0 10"
    by (simp add: exact_steps_def is_double_def double_2 double_10 double_20)
  from map_double_lower_end [OF d0 d2 d0 d10 _ _ _ _ r2 r10, of 1] e1 e2
  show ?thesis by simp
qed

text \<open>
  Why the ranges must be finite: when the output range overflows, the lower end of the
  input range goes to \<open>0 * Infinity\<close>, which is \<open>NaN\<close>.
\<close>

lemma find_exp_beyond: "2 ^ (52 + k0 + n) \<le> y \<Longrightarrow> find_exp n k0 y = None"
proof (induction n arbitrary: k0)
  case 0
  then show ?case by simp
next
  case (Suc n)
  have "(2::real) ^ (53 + k0) \<le> 2 ^ (52 + k0 + Suc n)"
    by (intro power_increasing) simp_all
  then have "\<not> y < 2 ^ (53 + k0)" using Suc.prems by linarith
  moreover have "find_exp n (Suc k0) y = None"
    using Suc.prems by (intro Suc.IH) (simp add: add.assoc)
  ultimately show ?case by simp
qed

lemma double_max: "round_double max_double = Fin max_double"
  using round_double_at [of 2045 max_double] by (simp add: max_double_def double_eval)

lemma double_twice_max: "round_double (2 * max_double) = PInf"
proof -
  have "find_exp 2046 0 (\<bar>2 * max_double\<bar> * scale) = None"
    by (rule find_exp_beyond) (simp add: max_double_def scale_def)
  then show ?thesis
    by (simp add: round_double_def signed_inf_def max_double_def)
qed

lemma map_double_overflow:
  "map_double (Fin (- max_double)) (Fin (- max_double)) (Fin max_double)
     (Fin (- max_double)) (Fin max_double) = NaN
   \<and> is_double max_double \<and> is_double (- max_double)"
  by (simp add: map_double_def js_sub_def double_twice_max double_0 is_double_def double_max
      round_double_neg)

text \<open>
  C9, as it is stated, fails. With the input range from 0 to 3 and the output range from
  0 to \<open>0.1\<close>, the upper end 3 of the input range goes to the double after \<open>0.1\<close>,
  which is above the output range: three times \<open>0.1\<close> rounds up, and so does a third
  of the product.
\<close>

theorem map_double_misses_upper_end:
  "map_double (Fin 3) (Fin 0) (Fin 3) (Fin 0) (Fin tenth) = Fin above_tenth
   \<and> tenth < above_tenth
   \<and> is_double 0 \<and> is_double 3 \<and> is_double tenth"
proof -
  have "tenth < above_tenth"
    by (simp add: tenth_def above_tenth_def)
  then show ?thesis
    by (simp add: map_double_def js_sub_def is_double_def double_0 double_3 double_tenth
        double_three_tenths double_third double_above_tenth)
qed

section \<open>Properties of the synchronisation\<close>

lemma min_width_is_NaN: "ToNumber (d_width MIN_VIEWBOX_DIMENSIONS) = NaN"
  by (simp add: MIN_VIEWBOX_DIMENSIONS_def MINIMAP_DIMENSIONS_def StringToNumber_def is_digit_def)

lemma min_height_is_NaN: "ToNumber (d_height MIN_VIEWBOX_DIMENSIONS) = NaN"
  by (simp add: MIN_VIEWBOX_DIMENSIONS_def MINIMAP_DIMENSIONS_def StringToNumber_def is_digit_def)

lemma js_lt_NaN: "js_lt a NaN = False"
  by (cases a) simp_all

text \<open>
  The two minimum dimensions are the strings \<open>320px\<close> and \<open>180px\<close>, which convert to
  \<open>NaN\<close>: no width is below the minimum, and the content box is used as it is, whatever
  its size.
\<close>

lemma update_never_floored:
  "svg_viewBox (update api m) =
     Some [JNum (b_x (getBBox api (this_canvas m))), JNum (b_y (getBBox api (this_canvas m))),
           JNum (b_width (getBBox api (this_canvas m))),
           JNum (b_height (getBBox api (this_canvas m)))]"
  by (simp add: update_def min_width_is_NaN js_lt_NaN Let_def)

text \<open>
  C1. A content box of 100 by 100 at the origin is below the minimum of 320 by 180 in
  both dimensions, and the frame of the minimap should become the box of 320 by 180 at
  \<open>(-110, -40)\<close>. The update leaves it at the content box.
\<close>

theorem update_small_diagram_not_floored:
  "svg_viewBox (update store_api
      (Minimap \<lparr>sc_bbox = box 0 0 100 100, sc_viewbox = box 0 0 640 360, sc_zoom = Fin 1\<rparr>
         Map.empty (Fin 320) (Fin 180)))
   = Some [JNum (Fin 0), JNum (Fin 0), JNum (Fin 100), JNum (Fin 100)]"
  by (simp add: update_def Minimap_def store_api_def box_def min_width_is_NaN
      min_height_is_NaN Let_def)

section \<open>Properties of the pointer handlers\<close>

lemma requests_update [simp]: "requests (update api m) = requests m"
  by (simp add: update_def Let_def)

lemma this_state_update [simp]: "this_state (update api m) = this_state m"
  by (simp add: update_def Let_def)

lemma this_canvas_update [simp]: "this_canvas (update api m) = this_canvas m"
  by (simp add: update_def Let_def)

lemma this_state_centered [simp]:
  "this_state (setViewboxCenteredAroundPoint api pt m) = this_state m"
  by (simp add: setViewboxCenteredAroundPoint_def canvas_viewbox_def Let_def)

lemma this_state_canvas_zoom [simp]: "this_state (canvas_zoom api z m) = this_state m"
  by (simp add: canvas_zoom_def)

lemmas sample_defs = minimap0_def canvas0_def Minimap_def
  on_viewbox_changed_def on_mousedown_def on_parent_mousedown_def stopPropagation_def
  store_api_def box_def mouse_def update_def min_width_is_NaN js_lt_NaN Let_def

lemma centre_of_dragging1:
  "mapClickToDiagramPoint store_api (mouse 160 90 d) dragging1 = \<lparr>p_x = Fin 50, p_y = Fin 50\<rparr>"
  by (simp add: dragging1_def sample_defs mapClickToDiagramPoint_def fitAspectRatio_def
      js_gt_def js_sub_def map_num_def)

lemma centre_of_dragging2:
  "mapClickToDiagramPoint store_api (mouse 160 90 d) dragging2 = \<lparr>p_x = Fin 50, p_y = Fin 50\<rparr>"
  by (simp add: dragging2_def dragging1_def sample_defs mapClickToDiagramPoint_def
      fitAspectRatio_def js_gt_def js_sub_def map_num_def)

text \<open>
  C3. \<open>setViewboxCenteredAroundPoint\<close> makes one request: a viewbox with the width and
  the height of the viewbox that the canvas has before the call, and with
  \<open>x = p.x - width / 2\<close>, \<open>y = p.y - height / 2\<close>. For a finite point and a finite
  size the centre of the requested viewbox is the point.
\<close>

theorem setViewboxCenteredAroundPoint_centered:
  assumes "viewbox_get api (this_canvas m) = v"
  shows "requests (setViewboxCenteredAroundPoint api pt m) = requests m @
           [SetViewbox
              \<lparr>b_x = js_sub (p_x pt) (js_div (b_width v) (Fin 2)),
               b_y = js_sub (p_y pt) (js_div (b_height v) (Fin 2)),
               b_width = b_width v,
               b_height = b_height v\<rparr>]
    \<and> (\<forall>px py w ht.
          p_x pt = Fin px \<and> p_y pt = Fin py \<and> b_width v = Fin w \<and> b_height v = Fin ht \<longrightarrow>
            js_sub (p_x pt) (js_div (b_width v) (Fin 2)) = Fin (px - w / 2)
          \<and> js_sub (p_y pt) (js_div (b_height v) (Fin 2)) = Fin (py - ht / 2)
          \<and> js_add (js_sub (p_x pt) (js_div (b_width v) (Fin 2))) (js_div (b_width v) (Fin 2))
              = p_x pt
          \<and> js_add (js_sub (p_y pt) (js_div (b_height v) (Fin 2))) (js_div (b_height v) (Fin 2))
              = p_y pt)"
  using assms
  by (simp add: setViewboxCenteredAroundPoint_def canvas_viewbox_def js_sub_def Let_def)

theorem setViewboxCenteredAroundPoint_centered_witness:
  "requests (setViewboxCenteredAroundPoint store_api \<lparr>p_x = Fin 50, p_y = Fin 50\<rparr> minimap0)
     = [SetViewbox (box (- 270) (- 130) 640 360)]
   \<and> js_add (Fin (- 270)) (js_div (Fin 640) (Fin 2)) = Fin 50
   \<and> js_add (Fin (- 130)) (js_div (Fin 360) (Fin 2)) = Fin 50"
  using setViewboxCenteredAroundPoint_centered
    [of store_api minimap0 "box 0 0 640 360" "\<lparr>p_x = Fin 50, p_y = Fin 50\<rparr>"]
  by (simp add: sample_defs js_sub_def)

text \<open>
  C4. With a finite \<open>deltaY\<close> and a finite zoom \<open>z\<close> read from the canvas (after the
  viewbox was centred), the last request of the wheel handler sets the zoom to
  \<open>z - deltaY / 300\<close> clamped to the interval from 0.2 to 4. For \<open>deltaY = -300\<close> that
  is \<open>z + 1\<close> clamped: the zoom grows by 1 where \<open>z + 1\<close> lies in the interval, and
  never beyond 4.
\<close>

theorem on_wheel_zoom:
  assumes "deltaY event = Fin d"
    and "zoom_get api (this_canvas (setViewboxCenteredAroundPoint api
           (mapClickToDiagramPoint api (stopPropagation event) m) m)) = Fin z"
  shows "last (requests (snd (on_wheel api event m)))
           = SetZoom (Fin (min (max (z - d / 300) (2 / 10)) 4))
    \<and> 2 / 10 \<le> min (max (z - d / 300) (2 / 10)) 4
    \<and> min (max (z - d / 300) (2 / 10)) 4 \<le> (4::real)
    \<and> (d = - 300 \<longrightarrow> min (max (z - d / 300) (2 / 10)) 4 = min (max (z + 1) (2 / 10)) 4)
    \<and> (d = - 300 \<and> - 8 / 10 \<le> z \<and> z \<le> 3 \<longrightarrow> min (max (z - d / 300) (2 / 10)) 4 = z + 1)"
  using assms
  by (auto simp add: on_wheel_def canvas_zoom_def stopPropagation_def Let_def Math_min_def
      Math_max_def js_sub_def ZOOM_SMOOTHING_def MIN_ZOOM_def MAX_ZOOM_def min_def max_def)

theorem on_wheel_zoom_witness:
  "last (requests (snd (on_wheel store_api (mouse 160 90 (- 300)) minimap0))) = SetZoom (Fin 2)"
proof -
  have d: "deltaY (mouse 160 90 (- 300)) = Fin (- 300)"
    by (simp add: mouse_def)
  have z: "zoom_get store_api (this_canvas (setViewboxCenteredAroundPoint store_api
      (mapClickToDiagramPoint store_api (stopPropagation (mouse 160 90 (- 300))) minimap0)
      minimap0)) = Fin 1"
    by (simp add: setViewboxCenteredAroundPoint_def canvas_viewbox_def store_api_def
        minimap0_def canvas0_def Minimap_def Let_def)
  show ?thesis
    using on_wheel_zoom [OF d z] by simp
qed

text \<open>
  C5, as the code has it. While dragging, the handler of \<open>mousemove\<close> makes one request:
  a viewbox with the width and the height of the viewbox that the canvas has at the time
  of the move, with \<open>x\<close> and \<open>y\<close> half that width and height before the diagram point
  under the pointer. The viewbox kept in the drag state is not read.
\<close>

theorem on_mousemove_dragging:
  assumes "isDragging (this_state m)"
  shows "requests (snd (on_mousemove api event m)) = requests m @
     [SetViewbox
        \<lparr>b_x = js_sub (p_x (mapClickToDiagramPoint api event m))
                 (js_div (b_width (viewbox_get api (this_canvas m))) (Fin 2)),
         b_y = js_sub (p_y (mapClickToDiagramPoint api event m))
                 (js_div (b_height (viewbox_get api (this_canvas m))) (Fin 2)),
         b_width = b_width (viewbox_get api (this_canvas m)),
         b_height = b_height (viewbox_get api (this_canvas m))\<rparr>]"
  using assms
  by (simp add: on_mousemove_def setViewboxCenteredAroundPoint_def canvas_viewbox_def Let_def)

theorem on_mousemove_dragging_witness:
  "requests (snd (on_mousemove store_api (mouse 160 90 0) dragging1))
     = [SetViewbox (box (- 270) (- 130) 640 360)]"
proof -
  have "isDragging (this_state dragging1)"
    by (simp add: dragging1_def sample_defs)
  from on_mousemove_dragging [OF this, of store_api "mouse 160 90 0"] show ?thesis
    by (simp add: centre_of_dragging1) (simp add: dragging1_def sample_defs js_sub_def)
qed

text \<open>
  C5, as it is stated, fails. The button goes down while the viewbox is 640 by 360, the
  diagram is then zoomed to a viewbox of 320 by 180, and the pointer moves to the middle
  of the minimap: the drag state still holds the viewbox of 640 by 360, and the request
  is a viewbox of 320 by 180.
\<close>

theorem on_mousemove_ignores_cachedViewbox:
  "isDragging (this_state dragging2)
   \<and> cachedViewbox (this_state dragging2) = Some (box 0 0 640 360)
   \<and> requests (snd (dispatch store_api MouseMove (mouse 160 90 0) dragging2))
       = [SetViewbox (box (- 110) (- 40) 320 180)]"
  by (simp add: on_mousemove_def setViewboxCenteredAroundPoint_def canvas_viewbox_def
      centre_of_dragging2)
     (simp add: dragging2_def dragging1_def sample_defs js_sub_def)

text \<open>
  C6, as the code has it. The wheel handler stops the propagation of the event; whether
  the default action of the event is prevented is left as it was.
\<close>

theorem on_wheel_stops_propagation_only:
  "propagationStopped (fst (on_wheel api event m))
   \<and> defaultPrevented (fst (on_wheel api event m)) = defaultPrevented event"
  by (simp add: on_wheel_def stopPropagation_def Let_def)

text \<open>
  C6, as it is stated, fails: after the handler has run on a wheel event, the default
  action of the event is not prevented.
\<close>

theorem on_wheel_default_not_prevented:
  "\<not> (propagationStopped (fst (on_wheel store_api (mouse 160 90 (- 300)) minimap0))
      \<and> defaultPrevented (fst (on_wheel store_api (mouse 160 90 (- 300)) minimap0)))"
  by (simp add: on_wheel_def stopPropagation_def Let_def mouse_def)

lemma dispatch_drag_inv:
  "drag_inv (this_state m) \<Longrightarrow> drag_inv (this_state (snd (dispatch api k event m)))"
  by (cases k)
     (simp_all add: drag_inv_def setCursor_def on_click_def on_mousedown_def on_mousemove_def
        on_mouseup_def on_wheel_def Let_def)

lemma dispatch_all_drag_inv:
  "drag_inv (this_state m) \<Longrightarrow> drag_inv (this_state (dispatch_all api evs m))"
proof (induction evs arbitrary: m)
  case Nil
  then show ?case by simp
next
  case (Cons a evs)
  obtain k event where a: "a = (k, event)" by (cases a)
  show ?case using Cons.IH [OF dispatch_drag_inv [OF Cons.prems]] by (simp add: a)
qed

text \<open>
  C8. In the drag state, the start position and the cached viewbox are set exactly when
  \<open>isDragging\<close> is true: this holds when the minimap is built and after every sequence of
  pointer events. The button going down sets \<open>isDragging\<close> and caches the viewbox of the
  canvas; the button going up, after any number of moves, clears \<open>isDragging\<close> and the
  cached viewbox.
\<close>

theorem drag_state_lifecycle:
  "drag_inv (this_state (Minimap c reg w h))
   \<and> drag_inv (this_state (dispatch_all api evs (Minimap c reg w h)))
   \<and> isDragging (this_state (snd (dispatch api MouseDown e m)))
   \<and> cachedViewbox (this_state (snd (dispatch api MouseDown e m)))
       = Some (viewbox_get api (this_canvas m))
   \<and> \<not> isDragging (this_state (snd (dispatch api MouseUp e2
         (dispatch_all api (map (Pair MouseMove) moves) (snd (dispatch api MouseDown e m))))))
   \<and> cachedViewbox (this_state (snd (dispatch api MouseUp e2
         (dispatch_all api (map (Pair MouseMove) moves) (snd (dispatch api MouseDown e m))))))
       = None"
proof -
  have init: "drag_inv (this_state (Minimap c reg w h))"
    by (simp add: drag_inv_def Minimap_def)
  show ?thesis
    using init dispatch_all_drag_inv [OF init, of api evs]
    by (simp add: on_mousedown_def on_mouseup_def)
qed

section \<open>The argument of \<open>fitAspectRatio\<close>\<close>

text \<open>
  C10, as the code has it. \<open>fitAspectRatio\<close> works in place: it returns the reference
  it was given, and no other object changes. When the ratio of the box is above the target
  it writes the computed \<open>y\<close> and \<open>height\<close> into the object; when the ratio is not above
  but below the target it writes the computed \<open>x\<close> and \<open>width\<close>; when the ratio is
  neither above nor below the target it writes nothing.
\<close>

theorem fitAspectRatio_in_place:
  "fst (fitAspectRatio b r h) = b
   \<and> (\<forall>a. a \<noteq> b \<longrightarrow> snd (fitAspectRatio b r h) a = h a)
   \<and> (js_gt (js_div (b_width (h b)) (b_height (h b))) r \<longrightarrow>
        snd (fitAspectRatio b r h) b = (h b)
          \<lparr>b_y := js_sub (b_y (h b))
                    (js_div (js_sub (js_mul (b_width (h b)) (js_div (Fin 1) r)) (b_height (h b)))
                       (Fin 2)),
           b_height := js_mul (b_width (h b)) (js_div (Fin 1) r)\<rparr>)
   \<and> (\<not> js_gt (js_div (b_width (h b)) (b_height (h b))) r
        \<and> js_lt (js_div (b_width (h b)) (b_height (h b))) r \<longrightarrow>
        snd (fitAspectRatio b r h) b = (h b)
          \<lparr>b_x := js_sub (b_x (h b))
                    (js_div (js_sub (js_mul (b_height (h b)) r) (b_width (h b))) (Fin 2)),
           b_width := js_mul (b_height (h b)) r\<rparr>)
   \<and> (\<not> js_gt (js_div (b_width (h b)) (b_height (h b))) r
        \<and> \<not> js_lt (js_div (b_width (h b)) (b_height (h b))) r \<longrightarrow>
        snd (fitAspectRatio b r h) = h)"
  by (simp add: fitAspectRatio_def Let_def)

theorem fitAspectRatio_in_place_witness:
  "fst (fitAspectRatio 0 (Fin 2) ((\<lambda>_. box 0 0 100 100)(1 := box 1 2 3 4))) = 0
   \<and> snd (fitAspectRatio 0 (Fin 2) ((\<lambda>_. box 0 0 100 100)(1 := box 1 2 3 4))) 1 = box 1 2 3 4
   \<and> snd (fitAspectRatio 0 (Fin 2) ((\<lambda>_. box 0 0 100 100)(1 := box 1 2 3 4))) 0
       = box (- 50) 0 200 100"
  using fitAspectRatio_in_place [of 0 "Fin 2" "(\<lambda>_. box 0 0 100 100)(1 := box 1 2 3 4)"]
  by (simp add: box_def js_gt_def js_sub_def)

text \<open>
  C10, as it is stated, fails: the caller's box of 100 by 100 at the origin holds, after
  the call with the target ratio 2, the box of 200 by 100 at \<open>(-50, 0)\<close>.
\<close>

theorem fitAspectRatio_mutates:
  "snd (fitAspectRatio 0 (Fin 2) (\<lambda>_. box 0 0 100 100)) 0 = box (- 50) 0 200 100
   \<and> box (- 50) 0 200 100 \<noteq> box 0 0 100 100"
  by (simp add: fitAspectRatio_def Let_def box_def js_gt_def js_sub_def)

section \<open>Properties of the mirror\<close>

lemma this_elementsGroup_update [simp]: "this_elementsGroup (update api m) = this_elementsGroup m"
  by (simp add: update_def Let_def)

lemma this_elementRegistry_update [simp]:
  "this_elementRegistry (update api m) = this_elementRegistry m"
  by (simp add: update_def Let_def)

lemma mirror_inv_update [simp]: "mirror_inv R P (update api m) = mirror_inv R P m"
  by (simp add: mirror_inv_def mirror_ids_def registry_ids_def)

lemma remove_id_no_ids: "no_ids ns \<Longrightarrow> remove_id a ns = None"
  by (induction a ns rule: remove_id.induct) simp_all

lemma remove_id_absent:
  "mirror_nodes ns \<Longrightarrow> a \<notin> set (top_ids ns) \<Longrightarrow> remove_id a ns = None"
  by (induction a ns rule: remove_id.induct) (auto simp add: remove_id_no_ids)

lemma remove_id_present:
  "mirror_nodes ns \<Longrightarrow> distinct (top_ids ns) \<Longrightarrow> a \<in> set (top_ids ns) \<Longrightarrow>
     \<exists>ns'. remove_id a ns = Some ns' \<and> mirror_nodes ns' \<and> distinct (top_ids ns')
           \<and> set (top_ids ns') = set (top_ids ns) - {a}"
proof (induction a ns rule: remove_id.induct)
  case (1 a)
  then show ?case by simp
next
  case (2 a s ns)
  then show ?case by simp
next
  case (3 a i c t tg ch ns)
  show ?case
  proof (cases "i = Some a")
    case True
    then show ?thesis using "3.prems" by auto
  next
    case False
    then obtain b where b: "i = Some b" "b \<noteq> a" using "3.prems" by auto
    have ch: "remove_id a ch = None" using "3.prems" by (simp add: remove_id_no_ids)
    have "\<exists>ns'. remove_id a ns = Some ns' \<and> mirror_nodes ns' \<and> distinct (top_ids ns')
           \<and> set (top_ids ns') = set (top_ids ns) - {a}"
      using "3.IH"(2) [OF False ch] "3.prems" b by simp
    then obtain ns' where ns': "remove_id a ns = Some ns'" "mirror_nodes ns'"
        "distinct (top_ids ns')" "set (top_ids ns') = set (top_ids ns) - {a}"
      by blast
    then show ?thesis using "3.prems" b ch by auto
  qed
qed

lemma top_ids_append [simp]: "top_ids (ns @ ms) = top_ids ns @ top_ids ms"
  by (induction ns rule: top_ids.induct) (simp_all split: option.splits)

lemma mirror_nodes_append [simp]: "mirror_nodes (ns @ ms) = (mirror_nodes ns \<and> mirror_nodes ms)"
  by (induction ns rule: mirror_nodes.induct) simp_all

lemma removeElement_mirror:
  assumes "mirror_nodes (this_elementsGroup m)" and "distinct (top_ids (this_elementsGroup m))"
  shows "mirror_nodes (this_elementsGroup (removeElement e m))
    \<and> distinct (top_ids (this_elementsGroup (removeElement e m)))
    \<and> mirror_ids (removeElement e m) = mirror_ids m - {el_id e}
    \<and> this_elementRegistry (removeElement e m) = this_elementRegistry m"
proof (cases "el_id e \<in> set (top_ids (this_elementsGroup m))")
  case True
  from remove_id_present [OF assms True] obtain ns' where
    "remove_id (el_id e) (this_elementsGroup m) = Some ns'" "mirror_nodes ns'"
    "distinct (top_ids ns')"
    "set (top_ids ns') = set (top_ids (this_elementsGroup m)) - {el_id e}"
    by blast
  then show ?thesis
    by (simp add: removeElement_def mirror_ids_def)
next
  case False
  have "remove_id (el_id e) (this_elementsGroup m) = None"
    by (rule remove_id_absent [OF assms(1) False])
  then show ?thesis
    using False assms by (simp add: removeElement_def mirror_ids_def)
qed

lemma plain_visualE:
  assumes "plain_visual g"
  obtains i c t tg ch where "getDjsVisual g = Inr (Some (Elem i c t tg ch))" and "no_ids ch"
  using assms
  by (auto simp add: plain_visual_def split: sum.splits option.splits svgnode.splits)

lemma addElement_mirror:
  assumes "mirror_nodes (this_elementsGroup m)" and "distinct (top_ids (this_elementsGroup m))"
    and "el_id e \<notin> mirror_ids m" and "plain_visual g"
  shows "\<exists>v clone m1. getDjsVisual g = Inr v \<and> addElement e v m = Inr (clone, m1)
    \<and> mirror_nodes (this_elementsGroup m1)
    \<and> distinct (top_ids (this_elementsGroup m1))
    \<and> mirror_ids m1 = insert (el_id e) (mirror_ids m)
    \<and> this_elementRegistry m1 = this_elementRegistry m"
proof -
  from assms(4) obtain i c t tg ch where
    v: "getDjsVisual g = Inr (Some (Elem i c t tg ch))" and ch: "no_ids ch"
    by (rule plain_visualE)
  show ?thesis
    using assms(1-3) v ch by (simp add: addElement_def mirror_ids_def Let_def)
qed

lemma added_step:
  assumes "mirror_inv R P m" and "el_id e \<notin> R" and "el_id e \<notin> P" and "plain_visual g"
  shows "\<exists>m1. notify api (ElementAdded e g) m = Inr m1 \<and> mirror_inv (insert (el_id e) R) P m1"
proof -
  let ?m0 = "m\<lparr>this_elementRegistry := (this_elementRegistry m)(el_id e \<mapsto> g)\<rparr>"
  have "mirror_nodes (this_elementsGroup ?m0)" "distinct (top_ids (this_elementsGroup ?m0))"
    "el_id e \<notin> mirror_ids ?m0"
    using assms by (simp_all add: mirror_inv_def mirror_ids_def)
  from addElement_mirror [OF this assms(4)] obtain v clone m1 where
    m1: "getDjsVisual g = Inr v" "addElement e v ?m0 = Inr (clone, m1)"
      "mirror_nodes (this_elementsGroup m1)" "distinct (top_ids (this_elementsGroup m1))"
      "mirror_ids m1 = insert (el_id e) (mirror_ids ?m0)"
      "this_elementRegistry m1 = this_elementRegistry ?m0"
    by blast
  have "mirror_inv (insert (el_id e) R) P (update api m1)"
    using assms m1(3-6) by (auto simp add: mirror_inv_def mirror_ids_def registry_ids_def)
  then show ?thesis using m1(1,2) by (simp add: on_added_def)
qed

lemma removed_step:
  assumes "mirror_inv R P m" and "el_id e \<in> R"
  shows "\<exists>m1. notify api (ElementRemoved e) m = Inr m1
           \<and> mirror_inv (R - {el_id e}) (insert (el_id e) P) m1"
  using assms
  by (auto simp add: mirror_inv_def mirror_ids_def registry_ids_def split: if_splits)

lemma changed_each_step:
  "mirror_inv R P m \<Longrightarrow>
     \<exists>m1. changed_each es m = Inr m1 \<and> mirror_inv R (P - set (map el_id es)) m1"
proof (induction es arbitrary: P m)
  case Nil
  then show ?case by simp
next
  case (Cons e es)
  let ?m1 = "removeElement e m"
  have nodes: "mirror_nodes (this_elementsGroup m)" "distinct (top_ids (this_elementsGroup m))"
    using Cons.prems by (simp_all add: mirror_inv_def)
  note rm = removeElement_mirror [OF nodes, of e]
  show ?case
  proof (cases "this_elementRegistry m (el_id e)")
    case None
    then have notin: "el_id e \<notin> R"
      using Cons.prems by (auto simp add: mirror_inv_def registry_ids_def)
    have "mirror_inv R (P - {el_id e}) ?m1"
      using Cons.prems notin rm
      by (auto simp add: mirror_inv_def registry_ids_def)
    from Cons.IH [OF this] obtain m1 where
      "changed_each es ?m1 = Inr m1" "mirror_inv R (P - {el_id e} - set (map el_id es)) m1"
      by blast
    moreover have "P - {el_id e} - set (map el_id es) = P - set (map el_id (e # es))"
      by auto
    ultimately show ?thesis
      using None rm by simp
  next
    case (Some g)
    then have inR: "el_id e \<in> R" and vis: "plain_visual g"
      using Cons.prems by (auto simp add: mirror_inv_def registry_ids_def)
    have notP: "el_id e \<notin> P"
      using Cons.prems inR by (auto simp add: mirror_inv_def)
    have "el_id e \<notin> mirror_ids ?m1" using rm by simp
    from addElement_mirror [OF _ _ this vis] rm obtain v clone m2 where
      m2: "getDjsVisual g = Inr v" "addElement e v ?m1 = Inr (clone, m2)"
        "mirror_nodes (this_elementsGroup m2)" "distinct (top_ids (this_elementsGroup m2))"
        "mirror_ids m2 = insert (el_id e) (mirror_ids ?m1)"
        "this_elementRegistry m2 = this_elementRegistry ?m1"
      by blast
    have "mirror_inv R P m2"
      using Cons.prems inR rm m2(3-6)
      by (auto simp add: mirror_inv_def registry_ids_def)
    from Cons.IH [OF this] obtain m1 where
      "changed_each es m2 = Inr m1" "mirror_inv R (P - set (map el_id es)) m1"
      by blast
    moreover have "P - set (map el_id es) = P - set (map el_id (e # es))"
      using notP by auto
    ultimately show ?thesis
      using Some rm m2(1,2) by simp
  qed
qed

lemma changed_step:
  assumes "mirror_inv R P m"
  shows "\<exists>m1. notify api (ElementsChanged es) m = Inr m1
           \<and> mirror_inv R (P - set (map el_id es)) m1"
proof -
  from changed_each_step [OF assms, of es] obtain m1 where
    "changed_each es m = Inr m1" "mirror_inv R (P - set (map el_id es)) m1"
    by blast
  then show ?thesis
    by (simp add: on_elements_changed_def)
qed

lemma reported_run:
  "mirror_inv (set reg) (set pend) m \<Longrightarrow> reported reg pend ns \<Longrightarrow>
     \<exists>m'. notify_all api ns m = Inr m' \<and> mirror_ids m' = registry_ids m'
         \<and> mirror_nodes (this_elementsGroup m')
         \<and> distinct (top_ids (this_elementsGroup m'))"
proof (induction ns arbitrary: reg pend m)
  case Nil
  then show ?case by (simp add: mirror_inv_def)
next
  case (Cons n ns)
  show ?case
  proof (cases n)
    case (ElementAdded e g)
    with Cons.prems have pre: "el_id e \<notin> set reg" "el_id e \<notin> set pend" "plain_visual g"
      and rest: "reported (el_id e # reg) pend ns"
      by simp_all
    from added_step [OF Cons.prems(1) pre, of api] obtain m1 where
      m1: "notify api (ElementAdded e g) m = Inr m1" "mirror_inv (set (el_id e # reg)) (set pend) m1"
      by auto
    from Cons.IH [OF m1(2) rest] m1(1) ElementAdded show ?thesis by simp
  next
    case (ElementRemoved e)
    with Cons.prems have pre: "el_id e \<in> set reg"
      and rest: "reported (removeAll (el_id e) reg) (el_id e # pend) ns"
      by simp_all
    from removed_step [OF Cons.prems(1) pre, of api] obtain m1 where
      m1: "notify api (ElementRemoved e) m = Inr m1"
        "mirror_inv (set (removeAll (el_id e) reg)) (set (el_id e # pend)) m1"
      by auto
    from Cons.IH [OF m1(2) rest] m1(1) ElementRemoved show ?thesis by simp
  next
    case (ElementsChanged es)
    with Cons.prems have
      rest: "reported reg (filter (\<lambda>i. i \<notin> set (map el_id es)) pend) ns"
      by simp
    have eq: "set pend - set (map el_id es)
        = set (filter (\<lambda>i. i \<notin> set (map el_id es)) pend)"
      by auto
    from changed_step [OF Cons.prems(1), of api es] obtain m1 where
      m1: "notify api (ElementsChanged es) m = Inr m1"
        "mirror_inv (set reg) (set (filter (\<lambda>i. i \<notin> set (map el_id es)) pend)) m1"
      unfolding eq by auto
    from Cons.IH [OF m1(2) rest] m1(1) ElementsChanged show ?thesis by simp
  next
    case ViewboxChanged
    with Cons.prems have rest: "reported reg pend ns" by simp
    have "mirror_inv (set reg) (set pend) (on_viewbox_changed api m)"
      using Cons.prems(1) by (simp add: on_viewbox_changed_def)
    from Cons.IH [OF this rest] ViewboxChanged show ?thesis by simp
  qed
qed

text \<open>
  C7, as the code has it. The minimap is built over an empty registry. Elements are added
  under ids that are not registered, with graphics whose child nodes are all elements,
  with a visual among them and no id on any node below the visual; and every element
  removed from the registry is listed in a later changed notification, before its id is
  added again and before the sequence ends. Then every handler returns, and at the end
  the child nodes of the elements group are elements with an id each, no two with the
  same id, and their ids are the ids of the registry.
\<close>

theorem mirror_matches_registry:
  assumes "reported [] [] ns"
  shows "\<exists>m'. notify_all api ns (Minimap c Map.empty w h) = Inr m'
           \<and> mirror_ids m' = registry_ids m'
           \<and> mirror_nodes (this_elementsGroup m')
           \<and> distinct (top_ids (this_elementsGroup m'))"
proof -
  have "mirror_inv (set []) (set []) (Minimap c Map.empty w h)"
    by (simp add: mirror_inv_def mirror_ids_def registry_ids_def Minimap_def)
  from reported_run [OF this assms] show ?thesis .
qed

lemma plain_gfx1: "plain_visual gfx1"
  by (simp add: plain_visual_def getDjsVisual_def gfx1_def)

theorem mirror_matches_registry_witness:
  "reported [] []
     [ElementAdded task1 gfx1, ElementAdded flow1 gfx1, ElementRemoved task1,
      ElementsChanged [task1, flow1]]
   \<and> (\<exists>m'. notify_all store_api
              [ElementAdded task1 gfx1, ElementAdded flow1 gfx1, ElementRemoved task1,
               ElementsChanged [task1, flow1]] minimap0 = Inr m'
          \<and> mirror_ids m' = registry_ids m'
          \<and> mirror_nodes (this_elementsGroup m')
          \<and> distinct (top_ids (this_elementsGroup m')))"
proof -
  have r: "reported [] []
     [ElementAdded task1 gfx1, ElementAdded flow1 gfx1, ElementRemoved task1,
      ElementsChanged [task1, flow1]]"
    by (simp add: plain_gfx1) (simp add: task1_def flow1_def)
  from mirror_matches_registry [OF r, of store_api canvas0 "Fin 320" "Fin 180"] r
  show ?thesis
    by (simp only: minimap0_def)
qed

text \<open>
  C7, as it is stated, fails. A task is added and then removed from the diagram; no
  handler of the minimap runs on the removal, and the elements group keeps the node of the
  task while the registry is empty.
\<close>

theorem removed_element_stays_mirrored:
  "(case notify_all store_api [ElementAdded task1 gfx1, ElementRemoved task1] minimap0 of
      Inl e \<Rightarrow> False
    | Inr m' \<Rightarrow> mirror_ids m' = {''Task_1''} \<and> registry_ids m' = {})"
  by (simp add: on_added_def addElement_def getDjsVisual_def task1_def gfx1_def minimap0_def
      Minimap_def mirror_ids_def registry_ids_def Let_def)

text \<open>
  Why the visuals must hold no ids: the lookup by id searches below the mirror nodes too.
  When the visual of the task holds a node with the id of the connection, a change of the
  connection removes that inner node and leaves the old mirror node of the connection
  beside the new one.
\<close>

lemma inner_id_is_removed_first:
  "(case notify_all store_api
           [ElementAdded task1 gfx2, ElementAdded flow1 gfx1, ElementsChanged [flow1]] minimap0 of
      Inl e \<Rightarrow> False
    | Inr m' \<Rightarrow> top_ids (this_elementsGroup m') = [''Task_1'', ''Flow_1'', ''Flow_1''])"
  by (simp add: on_added_def on_elements_changed_def removeElement_def addElement_def
      getDjsVisual_def task1_def flow1_def gfx1_def gfx2_def minimap0_def Minimap_def Let_def)

text \<open>Graphics with a child node that is not an element make the handler throw.\<close>

lemma text_child_throws:
  "getDjsVisual [TextNode ''x'', Elem None (Some ''djs-visual'') None ''g'' []] = Inl TypeError"
  by (simp add: getDjsVisual_def)

end
